theory Spec2Isabelle
  imports Main
begin

section \<open>Python values, exceptions and effects\<close>

text \<open>
  The program is a Python 2 script (\<^verbatim>\<open>git_incremental_deploy.py\<close>). Its functions read and
  write files, talk to an FTP server and to a git repository, and mutate the
  \<^verbatim>\<open>Directory\<close> objects of the configuration. A function of the script is modelled as a
  state transformer that returns either the exception it raised or its value, and in both
  cases the state reached: the effects that happened before an exception stay.
\<close>

datatype exn_class = IOError | OSError | AttributeError | IndexError | Exception

datatype exn = Exn (exn_class: exn_class) (message: string)

type_synonym ('a, 's) prog = "'s \<Rightarrow> (exn + 'a) \<times> 's"

definition ret :: "'a \<Rightarrow> ('a, 's) prog" where
  "ret x = (\<lambda>s. (Inr x, s))"

definition raise :: "exn \<Rightarrow> ('a, 's) prog" where
  "raise e = (\<lambda>s. (Inl e, s))"

definition seq :: "('a, 's) prog \<Rightarrow> ('a \<Rightarrow> ('b, 's) prog) \<Rightarrow> ('b, 's) prog" where
  "seq m f = (\<lambda>s. case m s of (Inl e, s') \<Rightarrow> (Inl e, s') | (Inr x, s') \<Rightarrow> f x s')"

text \<open>\<^verbatim>\<open>try: m  except C as e: h e\<close>, where \<open>catches\<close> recognises the class \<open>C\<close>.\<close>

definition try_except :: "('a, 's) prog \<Rightarrow> (exn \<Rightarrow> bool) \<Rightarrow> (exn \<Rightarrow> ('a, 's) prog) \<Rightarrow> ('a, 's) prog" where
  "try_except m catches h =
     (\<lambda>s. case m s of
        (Inl e, s') \<Rightarrow> if catches e then h e s' else (Inl e, s')
      | (Inr x, s') \<Rightarrow> (Inr x, s'))"

text \<open>\<^verbatim>\<open>except IOError\<close> catches that class only; \<^verbatim>\<open>except Exception\<close> catches every
  exception a library call or the script raises.\<close>

definition is_IOError :: "exn \<Rightarrow> bool" where
  "is_IOError e = (exn_class e = IOError)"

definition is_Exception :: "exn \<Rightarrow> bool" where
  "is_Exception e = True"

fun for_each :: "'a list \<Rightarrow> ('a \<Rightarrow> (unit, 's) prog) \<Rightarrow> (unit, 's) prog" where
  "for_each [] body = ret ()"
| "for_each (x # xs) body = seq (body x) (\<lambda>_. for_each xs body)"

section \<open>Paths (posixpath)\<close>

definition slash :: char where
  "slash = CHR ''/''"

definition newline :: char where
  "newline = CHR 0x0A"

definition tab :: char where
  "tab = CHR 0x09"

text \<open>\<^verbatim>\<open>os.path.join(a, b)\<close>: an absolute \<open>b\<close> replaces \<open>a\<close>; otherwise one slash separates them.\<close>

definition path_join :: "string \<Rightarrow> string \<Rightarrow> string" where
  "path_join a b =
     (if b \<noteq> [] \<and> hd b = slash then b
      else if a = [] \<or> last a = slash then a @ b
      else a @ [slash] @ b)"

text \<open>\<^verbatim>\<open>p[:i]\<close> and \<^verbatim>\<open>p[i:]\<close> for \<^verbatim>\<open>i = p.rfind('/') + 1\<close>.\<close>

definition upto_last_slash :: "string \<Rightarrow> string" where
  "upto_last_slash p = rev (dropWhile (\<lambda>c. c \<noteq> slash) (rev p))"

definition basename :: "string \<Rightarrow> string" where
  "basename p = rev (takeWhile (\<lambda>c. c \<noteq> slash) (rev p))"

definition dirname :: "string \<Rightarrow> string" where
  "dirname p =
     (let h = upto_last_slash p
      in if h \<noteq> [] \<and> (\<exists>c \<in> set h. c \<noteq> slash)
         then rev (dropWhile (\<lambda>c. c = slash) (rev h)) else h)"

section \<open>The local file system\<close>

text \<open>
  Files and directories are identified by their path strings, as the script builds them
  with \<^verbatim>\<open>os.path.join\<close>. A path names a regular file with its contents, a directory,
  or nothing. The empty directory name stands for the working directory of the process,
  which exists. The exceptions of \<^verbatim>\<open>open\<close> and of the \<^verbatim>\<open>os\<close> module are built from an error
  number and its text, and their attribute \<^verbatim>\<open>message\<close>, which the script prints, is the empty
  string.
\<close>

datatype node = File string | Dir

type_synonym filesystem = "string \<rightharpoonup> node"

definition os_path_exists :: "string \<Rightarrow> filesystem \<Rightarrow> bool" where
  "os_path_exists p f = (f p \<noteq> None)"

definition parent_exists :: "string \<Rightarrow> filesystem \<Rightarrow> bool" where
  "parent_exists p f = (dirname p = [] \<or> f (dirname p) = Some Dir)"

text \<open>\<^verbatim>\<open>open(p, "w")\<close> followed by \<^verbatim>\<open>write(c)\<close>: IOError when \<open>p\<close> is empty, ends with a
  slash or is a directory, and when its parent directory is missing; otherwise the file
  is created or replaced.\<close>

definition fs_write :: "string \<Rightarrow> string \<Rightarrow> filesystem \<Rightarrow> exn + filesystem" where
  "fs_write p c f =
     (if p = [] \<or> last p = slash \<or> f p = Some Dir \<or> \<not> parent_exists p f
      then Inl (Exn IOError [])
      else Inr (f(p \<mapsto> File c)))"

text \<open>\<^verbatim>\<open>open(p, "r")\<close> and reading every line: the whole contents.\<close>

definition fs_read :: "string \<Rightarrow> filesystem \<Rightarrow> exn + string" where
  "fs_read p f = (case f p of Some (File c) \<Rightarrow> Inr c | _ \<Rightarrow> Inl (Exn IOError []))"

text \<open>\<^verbatim>\<open>os.remove(p)\<close>: OSError unless \<open>p\<close> is a regular file.\<close>

definition fs_remove :: "string \<Rightarrow> filesystem \<Rightarrow> exn + filesystem" where
  "fs_remove p f =
     (case f p of Some (File c) \<Rightarrow> Inr (f(p := None)) | _ \<Rightarrow> Inl (Exn OSError []))"

text \<open>The directory \<open>p\<close> and the directories above it, nearest first.\<close>

fun ancestors :: "nat \<Rightarrow> string \<Rightarrow> string list" where
  "ancestors 0 p = []"
| "ancestors (Suc n) p =
     (if p = [] \<or> dirname p = p then [] else p # ancestors n (dirname p))"

text \<open>\<^verbatim>\<open>os.makedirs(p)\<close>: OSError for the empty name, for an existing path and when a
  regular file is in the way.\<close>

definition fs_makedirs :: "string \<Rightarrow> filesystem \<Rightarrow> exn + filesystem" where
  "fs_makedirs p f =
     (if p = [] \<or> os_path_exists p f
         \<or> (\<exists>a \<in> set (ancestors (length p) p). f a \<noteq> None \<and> f a \<noteq> Some Dir)
      then Inl (Exn OSError [])
      else Inr (\<lambda>q. if q \<in> set (ancestors (length p) p) then Some Dir else f q))"

section \<open>The git repository and the FTP library\<close>

text \<open>
  GitPython and ftplib are libraries outside the script; what they return is a parameter
  of the model. \<open>gitobj\<close> is what \<^verbatim>\<open>repo.commit(id)\<close> may hand back: the script tests the
  result for truth and for being of class \<^verbatim>\<open>git.Commit\<close>. GitPython itself returns a commit
  or raises.
\<close>

datatype gitobj = PyNone | Commit (hexsha: string) | OtherObj

record diff_item =
  deleted_file :: bool
  a_path :: string
  rename_from :: "string option"
  rename_to :: "string option"

record git =
  repo_commit :: "string \<Rightarrow> exn + gitobj"
  head_commit :: "exn + gitobj"
  commit_diff :: "gitobj \<Rightarrow> gitobj \<Rightarrow> exn + diff_item list"
  ls_files :: "string \<Rightarrow> exn + string"

text \<open>
  \<open>'r\<close> is the state of the remote servers and \<open>'h\<close> a session handle (\<^verbatim>\<open>self.handle\<close>).
  \<open>ftp_open host None\<close> is \<^verbatim>\<open>FTP(host)\<close>, \<open>ftp_open host (Some (user, password))\<close> is
  \<^verbatim>\<open>FTP(host, user, password)\<close>, which also logs in.
\<close>

record ('h, 'r) ftplib =
  ftp_open :: "string \<Rightarrow> (string \<times> string) option \<Rightarrow> ('h, 'r) prog"
  ftp_login :: "'h \<Rightarrow> (unit, 'r) prog"
  ftp_cwd :: "'h \<Rightarrow> string \<Rightarrow> (unit, 'r) prog"
  ftp_mlsd :: "'h \<Rightarrow> (string list, 'r) prog"
  ftp_storbinary :: "'h \<Rightarrow> string \<Rightarrow> string \<Rightarrow> (unit, 'r) prog"
  ftp_mkd :: "'h \<Rightarrow> string \<Rightarrow> (unit, 'r) prog"
  ftp_rename :: "'h \<Rightarrow> string \<Rightarrow> string \<Rightarrow> (unit, 'r) prog"
  ftp_delete :: "'h \<Rightarrow> string \<Rightarrow> (unit, 'r) prog"
  ftp_quit :: "'h \<Rightarrow> (unit, 'r) prog"

section \<open>Directory objects and the program state\<close>

record 'h Directory =
  path :: string
  buffer :: string
  connection_mode :: "string option"
  commit :: gitobj
  auth :: "(string \<times> string) list option"
  handle :: "'h option"

definition upper_char :: "char \<Rightarrow> char" where
  "upper_char c =
     (case map_of (zip ''abcdefghijklmnopqrstuvwxyz'' ''ABCDEFGHIJKLMNOPQRSTUVWXYZ'') c of
        Some u \<Rightarrow> u | None \<Rightarrow> c)"

text \<open>\<^verbatim>\<open>Directory.__init__\<close>: the mode is upper-cased; \<^verbatim>\<open>self.auth\<close> is set only with a mode.\<close>

definition Directory_init ::
  "string \<Rightarrow> string option \<Rightarrow> (string \<times> string) list option \<Rightarrow> 'h Directory" where
  "Directory_init p mode a =
     \<lparr>path = p, buffer = [], connection_mode = map_option (map upper_char) mode,
      commit = PyNone, auth = (if mode = None then None else a), handle = None\<rparr>"

text \<open>
  The log records, in order, what the run prints and the calls it makes on the file
  system, the repository and the targets.
\<close>

datatype event =
    Print string
  | Wrote string string
  | Copied string string
  | Removed string
  | Resolve string
  | Deploy string

type_synonym ref = nat

record ('h, 'r) state =
  heap :: "ref \<Rightarrow> 'h Directory"
  fs :: filesystem
  remote :: 'r
  trace :: "event list"

record config =
  cfg_path :: string
  cfg_dirs :: "ref list"

definition emit :: "event \<Rightarrow> (unit, ('h, 'r) state) prog" where
  "emit ev = (\<lambda>s. (Inr (), s\<lparr>trace := trace s @ [ev]\<rparr>))"

definition print :: "string \<Rightarrow> (unit, ('h, 'r) state) prog" where
  "print msg = emit (Print msg)"

text \<open>A file-system operation run on the local file system of the state.\<close>

definition on_fs :: "(filesystem \<Rightarrow> exn + filesystem) \<Rightarrow> (unit, ('h, 'r) state) prog" where
  "on_fs op = (\<lambda>s. case op (fs s) of Inl e \<Rightarrow> (Inl e, s) | Inr f \<Rightarrow> (Inr (), s\<lparr>fs := f\<rparr>))"

text \<open>A library call run on the remote state.\<close>

definition on_remote :: "('a, 'r) prog \<Rightarrow> ('a, ('h, 'r) state) prog" where
  "on_remote op = (\<lambda>s. case op (remote s) of (res, r) \<Rightarrow> (res, s\<lparr>remote := r\<rparr>))"

text \<open>\<^verbatim>\<open>self.handle\<close>: the attribute exists only after \<^verbatim>\<open>connect\<close> has set it.\<close>

definition get_handle :: "ref \<Rightarrow> ('h, ('h, 'r) state) prog" where
  "get_handle r =
     (\<lambda>s. case handle (heap s r) of
        None \<Rightarrow> (Inl (Exn AttributeError ''handle''), s)
      | Some h \<Rightarrow> (Inr h, s))"

definition LOCK_FILE :: string where
  "LOCK_FILE = ''.git_lock''"

definition COMMIT_FILE :: string where
  "COMMIT_FILE = ''.git_commit''"


definition obj :: "ref \<Rightarrow> ('h Directory, ('h, 'r) state) prog" where
  "obj r = (\<lambda>s. (Inr (heap s r), s))"

definition update_obj :: "ref \<Rightarrow> ('h Directory \<Rightarrow> 'h Directory) \<Rightarrow> (unit, ('h, 'r) state) prog" where
  "update_obj r f = (\<lambda>s. (Inr (), s\<lparr>heap := (heap s)(r := f (heap s r))\<rparr>))"

definition get_fs :: "(filesystem, ('h, 'r) state) prog" where
  "get_fs = (\<lambda>s. (Inr (fs s), s))"

definition lift :: "exn + 'a \<Rightarrow> ('a, 's) prog" where
  "lift res = (\<lambda>s. (res, s))"

section \<open>class Directory\<close>

text \<open>\<^verbatim>\<open>Directory.connect\<close> (lines 143-165).\<close>

definition connect :: "('h, 'r) ftplib \<Rightarrow> ref \<Rightarrow> (unit, ('h, 'r) state) prog" where
  "connect L r =
     seq (obj r) (\<lambda>d.
       case connection_mode d of
         None \<Rightarrow> ret ()
       | Some m \<Rightarrow>
           if m = ''FTP'' then
             (case auth d of
                None \<Rightarrow> raise (Exn AttributeError ''keys'')
              | Some a \<Rightarrow>
                 (case map_of a ''host'' of
                    None \<Rightarrow>
                      seq (print ''No host'') (\<lambda>_.
                      raise (Exn Exception ''Unable to connect via FTP without a host''))
                  | Some host \<Rightarrow>
                     (case (map_of a ''user'', map_of a ''password'') of
                        (Some u, Some p) \<Rightarrow>
                          seq (print ''Username and password specified'') (\<lambda>_.
                          seq (on_remote (ftp_open L host (Some (u, p)))) (\<lambda>h.
                          seq (update_obj r (\<lambda>d. d\<lparr>handle := Some h\<rparr>)) (\<lambda>_.
                          print ''Logged in'')))
                      | _ \<Rightarrow>
                          seq (print ''No username or password'') (\<lambda>_.
                          seq (on_remote (ftp_open L host None)) (\<lambda>h.
                          seq (update_obj r (\<lambda>d. d\<lparr>handle := Some h\<rparr>)) (\<lambda>_.
                          on_remote (ftp_login L h)))))))
           else raise (Exn Exception (''Unsupported connection mode: '' @ m)))"

text \<open>\<^verbatim>\<open>Directory._check_file_exists\<close> (lines 172-183).\<close>

definition check_file_exists ::
  "('h, 'r) ftplib \<Rightarrow> ref \<Rightarrow> string \<Rightarrow> (bool, ('h, 'r) state) prog" where
  "check_file_exists L r filename =
     seq (obj r) (\<lambda>d.
       if connection_mode d = None then
         seq get_fs (\<lambda>f. ret (os_path_exists (path_join (path d) filename) f))
       else if connection_mode d = Some ''FTP'' then
         seq (get_handle r) (\<lambda>h.
         seq (on_remote (ftp_cwd L h (path d))) (\<lambda>_.
         seq (on_remote (ftp_mlsd L h)) (\<lambda>names.
         ret (filename \<in> set names))))
       else ret False)"

text \<open>\<^verbatim>\<open>Directory.check_locked\<close> (lines 167-169).\<close>

definition check_locked :: "('h, 'r) ftplib \<Rightarrow> ref \<Rightarrow> (bool, ('h, 'r) state) prog" where
  "check_locked L r = check_file_exists L r LOCK_FILE"

text \<open>
  \<^verbatim>\<open>Directory._read_root_dir_file_contents\<close> (lines 185-198). The result is
  \<^verbatim>\<open>contents[:-1]\<close>: the contents without their last character. In the FTP branch the
  argument \<^verbatim>\<open>self._read_to_buffer\<close> names an attribute that no line of the class sets (the
  constructor sets \<^verbatim>\<open>self.read_to_buffer\<close>), so evaluating it raises AttributeError before
  \<^verbatim>\<open>retrbinary\<close> is called.
\<close>

definition read_root_dir_file_contents ::
  "('h, 'r) ftplib \<Rightarrow> ref \<Rightarrow> string \<Rightarrow> (string, ('h, 'r) state) prog" where
  "read_root_dir_file_contents L r filename =
     seq (obj r) (\<lambda>d.
       if connection_mode d = None then
         seq get_fs (\<lambda>f.
         seq (lift (fs_read (path_join (path d) filename) f)) (\<lambda>contents.
         ret (butlast contents)))
       else if connection_mode d = Some ''FTP'' then
         seq (update_obj r (\<lambda>d. d\<lparr>buffer := []\<rparr>)) (\<lambda>_.
         seq (get_handle r) (\<lambda>h.
         seq (on_remote (ftp_cwd L h (path d))) (\<lambda>_.
         raise (Exn AttributeError ''_read_to_buffer''))))
       else ret (butlast []))"

text \<open>
  \<^verbatim>\<open>Directory.check_valid_commit\<close> (lines 200-208). The value returned is
  \<^verbatim>\<open>self.commit and self.commit.__class__ is git.Commit\<close>; the callers only test it for
  truth, and it is true exactly when the resolved object is a commit.
\<close>

definition class_is_Commit :: "gitobj \<Rightarrow> bool" where
  "class_is_Commit c = (case c of Commit _ \<Rightarrow> True | _ \<Rightarrow> False)"

definition check_valid_commit ::
  "('h, 'r) ftplib \<Rightarrow> git \<Rightarrow> ref \<Rightarrow> (bool, ('h, 'r) state) prog" where
  "check_valid_commit L G r =
     seq (check_file_exists L r COMMIT_FILE) (\<lambda>present.
       if \<not> present then ret False
       else
         seq (read_root_dir_file_contents L r COMMIT_FILE) (\<lambda>commit_id.
         seq (emit (Resolve commit_id)) (\<lambda>_.
         seq (lift (repo_commit G commit_id)) (\<lambda>c.
         seq (update_obj r (\<lambda>d. d\<lparr>commit := c\<rparr>)) (\<lambda>_.
         ret (class_is_Commit c))))))"

text \<open>\<^verbatim>\<open>Directory.write_new_file\<close> (lines 219-237).\<close>

definition show_mode :: "string option \<Rightarrow> string" where
  "show_mode m = (case m of None \<Rightarrow> ''None'' | Some x \<Rightarrow> x)"

definition write_new_file ::
  "('h, 'r) ftplib \<Rightarrow> ref \<Rightarrow> string \<Rightarrow> string \<Rightarrow> (unit, ('h, 'r) state) prog" where
  "write_new_file L r filename contents =
     seq (obj r) (\<lambda>d.
     seq (print (show_mode (connection_mode d))) (\<lambda>_.
       if connection_mode d = None then
         seq (on_fs (fs_write (path_join (path d) filename) contents)) (\<lambda>_.
         emit (Wrote (path_join (path d) filename) contents))
       else if connection_mode d = Some ''FTP'' then
         seq (print (path d)) (\<lambda>_.
         seq (get_handle r) (\<lambda>h.
         seq (try_except (on_remote (ftp_cwd L h (path d))) is_IOError (\<lambda>e.
                seq (print (''Error : '' @ message e)) (\<lambda>_.
                seq (on_remote (ftp_mkd L h (path_join (path d) (dirname filename)))) (\<lambda>_.
                on_remote (ftp_cwd L h (path_join (path d) (dirname filename))))))) (\<lambda>_.
         on_remote (ftp_storbinary L h (''STOR '' @ basename filename) contents))))
       else ret ()))"

text \<open>\<^verbatim>\<open>Directory.lock\<close> (lines 210-217).\<close>

definition lock :: "('h, 'r) ftplib \<Rightarrow> ref \<Rightarrow> (bool, ('h, 'r) state) prog" where
  "lock L r =
     try_except (seq (write_new_file L r LOCK_FILE ''locked'') (\<lambda>_. ret True)) is_IOError
       (\<lambda>e. seq (print (''Unable to write file: '' @ message e)) (\<lambda>_. ret False))"

text \<open>
  \<^verbatim>\<open>Directory.copy_file\<close> (lines 239-260). Locally the destination is opened for writing,
  which creates or empties it, before the source is opened for reading.
\<close>

definition copy_file ::
  "('h, 'r) ftplib \<Rightarrow> ref \<Rightarrow> string \<Rightarrow> string \<Rightarrow> (unit, ('h, 'r) state) prog" where
  "copy_file L r filename source_file =
     seq (obj r) (\<lambda>d.
       if connection_mode d = None then
         seq get_fs (\<lambda>f.
         seq (if \<not> os_path_exists (dirname (path_join (path d) filename)) f
              then on_fs (fs_makedirs (dirname (path_join (path d) filename)))
              else ret ()) (\<lambda>_.
         seq (on_fs (fs_write (path_join (path d) filename) [])) (\<lambda>_.
         seq get_fs (\<lambda>f'.
         seq (lift (fs_read source_file f')) (\<lambda>contents.
         seq (on_fs (fs_write (path_join (path d) filename) contents)) (\<lambda>_.
         emit (Copied (path_join (path d) filename) source_file)))))))
       else if connection_mode d = Some ''FTP'' then
         seq get_fs (\<lambda>f.
         seq (lift (fs_read source_file f)) (\<lambda>stream.
         seq (get_handle r) (\<lambda>h.
         seq (try_except (on_remote (ftp_cwd L h (path_join (path d) (dirname filename))))
                is_IOError (\<lambda>e.
                seq (on_remote (ftp_mkd L h (path_join (path d) (dirname filename)))) (\<lambda>_.
                on_remote (ftp_cwd L h (path_join (path d) (dirname filename)))))) (\<lambda>_.
         on_remote (ftp_storbinary L h (''STOR '' @ basename filename) stream)))))
       else ret ())"

text \<open>\<^verbatim>\<open>Directory.rename_file\<close> (lines 262-267): nothing is done locally.\<close>

definition rename_file ::
  "('h, 'r) ftplib \<Rightarrow> ref \<Rightarrow> string \<Rightarrow> string \<Rightarrow> (unit, ('h, 'r) state) prog" where
  "rename_file L r oldname newname =
     seq (obj r) (\<lambda>d.
       if connection_mode d = None then ret ()
       else if connection_mode d = Some ''FTP'' then
         seq (get_handle r) (\<lambda>h.
         seq (on_remote (ftp_cwd L h (path d))) (\<lambda>_.
         on_remote (ftp_rename L h oldname newname)))
       else ret ())"

text \<open>
  \<^verbatim>\<open>Directory.delete_file\<close> (lines 269-280). \<^verbatim>\<open>not self.connection_mode\<close> holds for
  \<^verbatim>\<open>None\<close> and for the empty string.
\<close>

definition delete_file ::
  "('h, 'r) ftplib \<Rightarrow> ref \<Rightarrow> string \<Rightarrow> (unit, ('h, 'r) state) prog" where
  "delete_file L r filename =
     seq (check_locked L r) (\<lambda>locked.
       if locked then
         seq (obj r) (\<lambda>d.
           if connection_mode d = None \<or> connection_mode d = Some [] then
             seq get_fs (\<lambda>f.
               if os_path_exists (path_join (path d) filename) f then
                 seq (on_fs (fs_remove (path_join (path d) filename))) (\<lambda>_.
                 emit (Removed (path_join (path d) filename)))
               else ret ())
           else if connection_mode d = Some ''FTP'' then
             seq (get_handle r) (\<lambda>h.
             seq (on_remote (ftp_cwd L h (path_join (path d) (dirname filename)))) (\<lambda>_.
             on_remote (ftp_delete L h (basename filename))))
           else ret ())
       else ret ())"

text \<open>\<^verbatim>\<open>Directory.abort\<close> (lines 282-288).\<close>

definition abort :: "('h, 'r) ftplib \<Rightarrow> ref \<Rightarrow> (unit, ('h, 'r) state) prog" where
  "abort L r =
     seq (delete_file L r LOCK_FILE) (\<lambda>_.
     seq (obj r) (\<lambda>d.
       if connection_mode d = None then ret ()
       else if connection_mode d = Some ''FTP'' then
         seq (get_handle r) (\<lambda>h. on_remote (ftp_quit L h))
       else ret ()))"

text \<open>\<^verbatim>\<open>Directory.deploy_diff\<close> (lines 290-302). A rename needs both names to be true, that
  is, present and not empty.\<close>

definition truthy :: "string option \<Rightarrow> bool" where
  "truthy x = (case x of None \<Rightarrow> False | Some v \<Rightarrow> v \<noteq> [])"

definition str_opt :: "string option \<Rightarrow> string" where
  "str_opt x = (case x of None \<Rightarrow> ''None'' | Some v \<Rightarrow> v)"

definition deploy_item ::
  "('h, 'r) ftplib \<Rightarrow> ref \<Rightarrow> config \<Rightarrow> diff_item \<Rightarrow> (unit, ('h, 'r) state) prog" where
  "deploy_item L r cfg item =
     (if deleted_file item then delete_file L r (a_path item)
      else if truthy (rename_from item) \<and> truthy (rename_to item) then
        rename_file L r (str_opt (rename_from item)) (str_opt (rename_to item))
      else copy_file L r (a_path item) (path_join (cfg_path cfg) (a_path item)))"

definition deploy_diff ::
  "('h, 'r) ftplib \<Rightarrow> ref \<Rightarrow> diff_item list \<Rightarrow> config \<Rightarrow> (unit, ('h, 'r) state) prog" where
  "deploy_diff L r diff cfg = for_each diff (deploy_item L r cfg)"

text \<open>\<^verbatim>\<open>Directory.deploy_tree\<close> (lines 305-307).\<close>

definition deploy_tree ::
  "('h, 'r) ftplib \<Rightarrow> ref \<Rightarrow> string list \<Rightarrow> config \<Rightarrow> (unit, ('h, 'r) state) prog" where
  "deploy_tree L r tree cfg =
     for_each tree (\<lambda>p. copy_file L r p (path_join (cfg_path cfg) p))"

text \<open>\<^verbatim>\<open>str.split(sep)\<close> for a separator of one character: the empty string gives one
  empty piece.\<close>

fun split_on :: "char \<Rightarrow> string \<Rightarrow> string list" where
  "split_on sep [] = [[]]"
| "split_on sep (c # cs) =
     (if c = sep then [] # split_on sep cs
      else (case split_on sep cs of
              [] \<Rightarrow> [[c]]
            | w # ws \<Rightarrow> (c # w) # ws))"

text \<open>\<^verbatim>\<open>commit.hexsha\<close>: only a commit object has the attribute.\<close>

definition get_hexsha :: "gitobj \<Rightarrow> exn + string" where
  "get_hexsha c = (case c of Commit h \<Rightarrow> Inr h | _ \<Rightarrow> Inl (Exn AttributeError ''hexsha''))"

text \<open>\<^verbatim>\<open>Directory.deploy\<close> (lines 309-322).\<close>

definition deploy ::
  "('h, 'r) ftplib \<Rightarrow> git \<Rightarrow> ref \<Rightarrow> gitobj \<Rightarrow> config \<Rightarrow> (bool, ('h, 'r) state) prog" where
  "deploy L G r c cfg =
     seq (obj r) (\<lambda>d.
     seq (emit (Deploy (path d))) (\<lambda>_.
     seq (if commit d \<noteq> PyNone then
            seq (lift (commit_diff G (commit d) c)) (\<lambda>diff. deploy_diff L r diff cfg)
          else
            seq (lift (ls_files G (cfg_path cfg))) (\<lambda>listing.
            deploy_tree L r (split_on newline listing) cfg)) (\<lambda>_.
     seq (lift (get_hexsha c)) (\<lambda>h.
     seq (write_new_file L r COMMIT_FILE h) (\<lambda>_.
     seq (delete_file L r LOCK_FILE) (\<lambda>_.
     ret True))))))"

section \<open>The orchestrator\<close>

text \<open>\<^verbatim>\<open>list_dirs\<close> (lines 39-43).\<close>

fun list_dirs_from :: "(ref \<Rightarrow> 'h Directory) \<Rightarrow> ref list \<Rightarrow> string" where
  "list_dirs_from h [] = []"
| "list_dirs_from h (r # rs) = [tab] @ path (h r) @ [newline] @ list_dirs_from h rs"

definition list_dirs :: "ref list \<Rightarrow> (string, ('h, 'r) state) prog" where
  "list_dirs directories = (\<lambda>s. (Inr (list_dirs_from (heap s) directories), s))"

text \<open>The module-level \<^verbatim>\<open>abort\<close> (lines 29-36); it returns \<^verbatim>\<open>False\<close>.\<close>

definition abort_dirs ::
  "('h, 'r) ftplib \<Rightarrow> ref list \<Rightarrow> string \<Rightarrow> (bool, ('h, 'r) state) prog" where
  "abort_dirs L directories msg =
     seq (for_each directories (abort L)) (\<lambda>_.
     seq (print msg) (\<lambda>_.
     ret False))"

text \<open>\<^verbatim>\<open>check_dirs_configured\<close> (lines 12-27).\<close>

fun missing_commit ::
  "('h, 'r) ftplib \<Rightarrow> git \<Rightarrow> ref list \<Rightarrow> ref list \<Rightarrow> (ref list, ('h, 'r) state) prog" where
  "missing_commit L G [] missing = ret missing"
| "missing_commit L G (r # rs) missing =
     seq (check_valid_commit L G r) (\<lambda>valid.
       if \<not> valid then missing_commit L G rs (missing @ [r])
       else missing_commit L G rs missing)"

definition check_dirs_configured ::
  "('h, 'r) ftplib \<Rightarrow> git \<Rightarrow> config \<Rightarrow> ref list \<Rightarrow> (bool, ('h, 'r) state) prog" where
  "check_dirs_configured L G cfg locked_dirs =
     seq (missing_commit L G (cfg_dirs cfg) []) (\<lambda>dirs_missing_commit.
       if length dirs_missing_commit > 0 then
         seq (list_dirs dirs_missing_commit) (\<lambda>listed.
         abort_dirs L locked_dirs
           (''Invalid / missing commit information for the following directories:'' @ [newline]
            @ listed @ ''Aborting.''))
       else ret True)"

text \<open>
  \<^verbatim>\<open>lock_dirs\<close> (lines 46-87). The loop sorts every target into one of three lists;
  \<^verbatim>\<open>continue\<close> after a failed \<^verbatim>\<open>connect\<close> goes on with the next target.
\<close>

record lock_lists =
  locked_dirs :: "ref list"
  already_locked_dirs :: "ref list"
  cannot_lock :: "ref list"

fun lock_loop ::
  "('h, 'r) ftplib \<Rightarrow> ref list \<Rightarrow> lock_lists \<Rightarrow> (lock_lists, ('h, 'r) state) prog" where
  "lock_loop L [] acc = ret acc"
| "lock_loop L (r # rs) acc =
     seq (try_except (seq (connect L r) (\<lambda>_. ret True)) is_Exception
            (\<lambda>e. seq (print (message e)) (\<lambda>_. ret False))) (\<lambda>connected.
       if \<not> connected then lock_loop L rs (acc\<lparr>cannot_lock := cannot_lock acc @ [r]\<rparr>)
       else
         seq (check_locked L r) (\<lambda>is_locked.
           if is_locked then
             lock_loop L rs (acc\<lparr>already_locked_dirs := already_locked_dirs acc @ [r]\<rparr>)
           else
             seq (lock L r) (\<lambda>ok.
               if ok then lock_loop L rs (acc\<lparr>locked_dirs := locked_dirs acc @ [r]\<rparr>)
               else lock_loop L rs (acc\<lparr>cannot_lock := cannot_lock acc @ [r]\<rparr>))))"

definition unable_msg :: "string \<Rightarrow> string" where
  "unable_msg listed =
     ''Unable to lock the following target directories:'' @ [newline] @ listed @ ''Aborting.''"

definition lock_dirs ::
  "('h, 'r) ftplib \<Rightarrow> config \<Rightarrow> (ref list option, ('h, 'r) state) prog" where
  "lock_dirs L cfg =
     seq (lock_loop L (cfg_dirs cfg)
            \<lparr>locked_dirs = [], already_locked_dirs = [], cannot_lock = []\<rparr>) (\<lambda>acc.
       if length (already_locked_dirs acc) > 0 then
         seq (list_dirs (already_locked_dirs acc)) (\<lambda>listed.
         seq (abort_dirs L (locked_dirs acc) (unable_msg listed)) (\<lambda>_.
         ret None))
       else if length (cannot_lock acc) > 0 then
         seq (list_dirs (cannot_lock acc)) (\<lambda>listed.
         seq (abort_dirs L (locked_dirs acc) (unable_msg listed)) (\<lambda>_.
         ret None))
       else ret (Some (locked_dirs acc)))"

text \<open>
  The main block after the configuration is loaded (lines 342-375). \<^verbatim>\<open>exit()\<close> ends the
  run with the outcome \<open>Exited\<close>; an exception that nothing catches ends it with that
  exception. \<^verbatim>\<open>Repo(config.path)\<close> either raises or returns a \<^verbatim>\<open>Repo\<close>, so the test
  \<^verbatim>\<open>repo.__class__ is not Repo\<close> of line 349 is never true and has no branch here.
\<close>

datatype outcome = Exited | Done

definition deploy_all ::
  "('h, 'r) ftplib \<Rightarrow> git \<Rightarrow> gitobj \<Rightarrow> config \<Rightarrow> (unit, ('h, 'r) state) prog" where
  "deploy_all L G c cfg =
     for_each (cfg_dirs cfg) (\<lambda>r.
       seq (deploy L G r c cfg) (\<lambda>ok.
         if ok then
           seq (obj r) (\<lambda>d. print (''Deployed successfully to  '' @ path d))
         else ret ()))"

text \<open>Lines 355-363: the desired commit is the one named on the command line or the head;
  when it is not a commit the locked targets are aborted (and the script goes on).\<close>

definition resolve_commit ::
  "('h, 'r) ftplib \<Rightarrow> git \<Rightarrow> string option \<Rightarrow> ref list \<Rightarrow> (gitobj, ('h, 'r) state) prog" where
  "resolve_commit L G commit_id locked =
     seq (case commit_id of
            Some i \<Rightarrow> seq (emit (Resolve i)) (\<lambda>_. lift (repo_commit G i))
          | None \<Rightarrow> lift (head_commit G)) (\<lambda>c.
     seq (if \<not> class_is_Commit c
          then abort_dirs L locked (''Invalid local commit for deploy'' @ [newline])
          else ret True) (\<lambda>_.
     ret c))"

definition run ::
  "('h, 'r) ftplib \<Rightarrow> (string \<Rightarrow> exn + git) \<Rightarrow> string list \<Rightarrow> string option \<Rightarrow> config
     \<Rightarrow> (outcome, ('h, 'r) state) prog" where
  "run L Repo flags commit_id cfg =
     seq (lock_dirs L cfg) (\<lambda>res.
       case res of
         None \<Rightarrow> ret Exited
       | Some locked \<Rightarrow>
           if locked = [] then ret Exited
           else
             seq (lift (Repo (cfg_path cfg))) (\<lambda>G.
             seq (resolve_commit L G commit_id locked) (\<lambda>c.
             seq (if ''h'' \<notin> set flags
                  then check_dirs_configured L G cfg locked
                  else ret True) (\<lambda>configured.
               if \<not> configured then ret Exited
               else
                 seq (deploy_all L G c cfg) (\<lambda>_.
                 seq (print ''Done'') (\<lambda>_.
                 ret Done))))))"

text \<open>The command line (lines 326-332): a flag is an argument that starts with a dash;
  of another argument the script keeps its first character, \<^verbatim>\<open>arg[0]\<close>.\<close>

fun parse_args :: "string list \<Rightarrow> string list \<Rightarrow> string option \<Rightarrow> exn + string list \<times> string option" where
  "parse_args [] flags commit_id = Inr (flags, commit_id)"
| "parse_args (arg # args) flags commit_id =
     (case arg of
        [] \<Rightarrow> Inl (Exn IndexError ''string index out of range'')
      | c # cs \<Rightarrow>
          if c = CHR ''-'' then parse_args args (flags @ [cs]) commit_id
          else parse_args args flags (Some [c]))"

definition main ::
  "('h, 'r) ftplib \<Rightarrow> (string \<Rightarrow> exn + git) \<Rightarrow> string list \<Rightarrow> config
     \<Rightarrow> (outcome, ('h, 'r) state) prog" where
  "main L Repo argv cfg =
     seq (lift (parse_args (tl argv) [] None)) (\<lambda>(flags, commit_id).
     run L Repo flags commit_id cfg)"

section \<open>Observations on a run\<close>

text \<open>The copies made and the targets on which \<open>deploy\<close> was called, in the order of
  the log.\<close>

fun copied :: "event list \<Rightarrow> (string \<times> string) list" where
  "copied [] = []"
| "copied (Copied dst src # es) = (dst, src) # copied es"
| "copied (_ # es) = copied es"

fun deploys :: "event list \<Rightarrow> string list" where
  "deploys [] = []"
| "deploys (Deploy p # es) = p # deploys es"
| "deploys (_ # es) = deploys es"

text \<open>A program keeps an observation when no run of it changes the observation's value.\<close>

definition keeps :: "(('h, 'r) state \<Rightarrow> 'x) \<Rightarrow> ('a, ('h, 'r) state) prog \<Rightarrow> bool" where
  "keeps g m = (\<forall>s. g (snd (m s)) = g s)"

fun resolved :: "event list \<Rightarrow> string list" where
  "resolved [] = []"
| "resolved (Resolve i # es) = i # resolved es"
| "resolved (_ # es) = resolved es"

text \<open>An observation that depends on the log alone, and not on the events of class \<open>Q\<close>.\<close>

definition ignores :: "(event \<Rightarrow> bool) \<Rightarrow> (('h, 'r) state \<Rightarrow> 'x) \<Rightarrow> bool" where
  "ignores Q g =
     ((\<forall>s f. g (s\<lparr>fs := f\<rparr>) = g s) \<and> (\<forall>s r. g (s\<lparr>remote := r\<rparr>) = g s)
      \<and> (\<forall>s h. g (s\<lparr>heap := h\<rparr>) = g s)
      \<and> (\<forall>s e. Q e \<longrightarrow> g (s\<lparr>trace := trace s @ [e]\<rparr>) = g s))"

fun no_deploy_event :: "event \<Rightarrow> bool" where
  "no_deploy_event (Deploy p) = False"
| "no_deploy_event (Copied d s) = False"
| "no_deploy_event _ = True"

fun no_resolve_event :: "event \<Rightarrow> bool" where
  "no_resolve_event (Resolve i) = False"
| "no_resolve_event _ = True"


text \<open>The path of a target's lock marker, \<^verbatim>\<open>os.path.join(self.path, self.LOCK_FILE)\<close>.\<close>

abbreviation lock_path :: "('h, 'r) state \<Rightarrow> ref \<Rightarrow> string" where
  "lock_path s r \<equiv> path_join (path (heap s r)) LOCK_FILE"

text \<open>The path of a target's commit marker.\<close>

abbreviation commit_path :: "('h, 'r) state \<Rightarrow> ref \<Rightarrow> string" where
  "commit_path s r \<equiv> path_join (path (heap s r)) COMMIT_FILE"

text \<open>
  What the loop of \<open>lock_dirs\<close> has done when it ends in \<open>s'\<close> with the lists \<open>acc'\<close>,
  having started in \<open>s\<close> with the lists \<open>acc\<close> and the targets \<open>rs\<close>: it has added \<open>new\<close>
  to the locked targets, which were local and without a lock marker, and has written
  their markers and nothing else; a target that held a marker is among the already locked.
\<close>

definition lock_post ::
  "('h, 'r) state \<Rightarrow> ref list \<Rightarrow> lock_lists \<Rightarrow> lock_lists \<Rightarrow> ('h, 'r) state \<Rightarrow> bool" where
  "lock_post s rs acc acc' s' =
     (\<exists>new al cl.
        heap s' = heap s \<and> remote s' = remote s
      \<and> locked_dirs acc' = locked_dirs acc @ new
      \<and> already_locked_dirs acc' = already_locked_dirs acc @ al
      \<and> cannot_lock acc' = cannot_lock acc @ cl
      \<and> (\<forall>r \<in> set new. connection_mode (heap s r) = None \<and> fs s (lock_path s r) = None)
      \<and> fs s' = (\<lambda>p. if p \<in> lock_path s ` set new then Some (File ''locked'') else fs s p)
      \<and> (al = [] \<and> cl = [] \<longrightarrow> new = rs)
      \<and> ((\<exists>r \<in> set rs. connection_mode (heap s r) = None \<and> fs s (lock_path s r) \<noteq> None)
            \<longrightarrow> al \<noteq> []))"

section \<open>Example libraries, targets and states\<close>

text \<open>An FTP library that reaches no server: every call raises.\<close>

definition no_ftp :: "(unit, unit) ftplib" where
  "no_ftp =
     \<lparr>ftp_open = (\<lambda>host cred. raise (Exn Exception ''unreachable'')),
      ftp_login = (\<lambda>h. raise (Exn Exception ''unreachable'')),
      ftp_cwd = (\<lambda>h p. raise (Exn Exception ''unreachable'')),
      ftp_mlsd = (\<lambda>h. raise (Exn Exception ''unreachable'')),
      ftp_storbinary = (\<lambda>h cmd c. raise (Exn Exception ''unreachable'')),
      ftp_mkd = (\<lambda>h p. raise (Exn Exception ''unreachable'')),
      ftp_rename = (\<lambda>h a b. raise (Exn Exception ''unreachable'')),
      ftp_delete = (\<lambda>h p. raise (Exn Exception ''unreachable'')),
      ftp_quit = (\<lambda>h. raise (Exn Exception ''unreachable''))\<rparr>"

text \<open>One local target \<^verbatim>\<open>site\<close>, an existing empty directory.\<close>

definition site_state :: "(unit, unit) state" where
  "site_state =
     \<lparr>heap = (\<lambda>_. Directory_init ''site'' None None),
      fs = [''site'' \<mapsto> Dir], remote = (), trace = []\<rparr>"

text \<open>The same target holding a lock marker.\<close>

definition locked_site_state :: "(unit, unit) state" where
  "locked_site_state =
     \<lparr>heap = (\<lambda>_. Directory_init ''site'' None None),
      fs = [''site'' \<mapsto> Dir, ''site/.git_lock'' \<mapsto> File ''locked''], remote = (), trace = []\<rparr>"

text \<open>An FTP server with one flat directory, given as the list of its files: every
  \<^verbatim>\<open>cwd\<close> succeeds and the deletion of a name that is not there is refused.\<close>

definition flat_ftp :: "(unit, (string \<times> string) list) ftplib" where
  "flat_ftp =
     \<lparr>ftp_open = (\<lambda>host cred. ret ()),
      ftp_login = (\<lambda>h. ret ()),
      ftp_cwd = (\<lambda>h p. ret ()),
      ftp_mlsd = (\<lambda>h r. (Inr (map fst r), r)),
      ftp_storbinary =
        (\<lambda>h cmd c r. (Inr (), (drop 5 cmd, c) # filter (\<lambda>e. fst e \<noteq> drop 5 cmd) r)),
      ftp_mkd = (\<lambda>h p. ret ()),
      ftp_rename = (\<lambda>h a b r. (Inr (), map (\<lambda>e. if fst e = a then (b, snd e) else e) r)),
      ftp_delete =
        (\<lambda>h n r. if n \<in> fst ` set r then (Inr (), filter (\<lambda>e. fst e \<noteq> n) r)
                  else (Inl (Exn Exception ''550''), r)),
      ftp_quit = (\<lambda>h. ret ())\<rparr>"

text \<open>One FTP target whose root holds a lock marker and a commit marker, before and after
  \<^verbatim>\<open>connect\<close>.\<close>

definition www_state :: "(unit, (string \<times> string) list) state" where
  "www_state =
     \<lparr>heap = (\<lambda>_. Directory_init ''/www'' (Some ''ftp'') (Some [(''host'', ''example.org'')])),
      fs = Map.empty,
      remote = [(''.git_lock'', ''locked''), (''.git_commit'', ''8c1f0e2a'')],
      trace = []\<rparr>"

definition www_connected :: "(unit, (string \<times> string) list) state" where
  "www_connected =
     www_state\<lparr>heap := (\<lambda>_. (Directory_init ''/www'' (Some ''ftp'')
                        (Some [(''host'', ''example.org'')]))\<lparr>handle := Some ()\<rparr>)\<rparr>"

text \<open>A repository in which every identifier names a commit.\<close>

definition any_git :: git where
  "any_git =
     \<lparr>repo_commit = (\<lambda>i. Inr (Commit i)),
      head_commit = Inr (Commit ''8c1f0e2a''),
      commit_diff = (\<lambda>a b. Inr []),
      ls_files = (\<lambda>p. Inr ''a.txt'')\<rparr>"


definition site_cfg :: config where
  "site_cfg = \<lparr>cfg_path = ''src'', cfg_dirs = [0]\<rparr>"

text \<open>A repository that knows one commit and lists one file, \<^verbatim>\<open>b/c.txt\<close>. As in
  GitPython, \<^verbatim>\<open>repo.commit\<close> raises for an identifier that names no object.\<close>

definition tree_git :: git where
  "tree_git =
     \<lparr>repo_commit = (\<lambda>i. if i = ''8c1f0e2a'' then Inr (Commit i)
                         else Inl (Exn Exception ''BadName'')),
      head_commit = Inr (Commit ''8c1f0e2a''),
      commit_diff = (\<lambda>a b. Inr []),
      ls_files = (\<lambda>p. Inr ''b/c.txt'')\<rparr>"

text \<open>Two local targets; in \<^verbatim>\<open>siteA\<close> a regular file \<^verbatim>\<open>b\<close> is in the way of the
  directory \<^verbatim>\<open>b\<close> of the source tree.\<close>

definition two_sites :: "(unit, unit) state" where
  "two_sites =
     \<lparr>heap = (\<lambda>r. if r = 0 then Directory_init ''siteA'' None None
                  else Directory_init ''siteB'' None None),
      fs = [''src'' \<mapsto> Dir, ''src/b'' \<mapsto> Dir, ''src/b/c.txt'' \<mapsto> File ''data'',
            ''siteA'' \<mapsto> Dir, ''siteA/b'' \<mapsto> File ''in the way'', ''siteB'' \<mapsto> Dir],
      remote = (), trace = []\<rparr>"

definition two_cfg :: config where
  "two_cfg = \<lparr>cfg_path = ''src'', cfg_dirs = [0, 1]\<rparr>"

text \<open>An FTP server that accepts the connection and the login and refuses the listing
  command \<^verbatim>\<open>MLSD\<close>.\<close>

definition no_mlsd_ftp :: "(unit, unit) ftplib" where
  "no_mlsd_ftp =
     \<lparr>ftp_open = (\<lambda>host cred. ret ()),
      ftp_login = (\<lambda>h. ret ()),
      ftp_cwd = (\<lambda>h p. ret ()),
      ftp_mlsd = (\<lambda>h. raise (Exn Exception ''500'')),
      ftp_storbinary = (\<lambda>h cmd c. ret ()),
      ftp_mkd = (\<lambda>h p. ret ()),
      ftp_rename = (\<lambda>h a b. ret ()),
      ftp_delete = (\<lambda>h p. ret ()),
      ftp_quit = (\<lambda>h. ret ())\<rparr>"

text \<open>Three targets: the local directories \<^verbatim>\<open>siteA\<close> and \<^verbatim>\<open>siteB\<close>, of which \<^verbatim>\<open>siteB\<close> holds
  a lock marker, and the FTP directory \<^verbatim>\<open>/www\<close>.\<close>

definition three_sites :: "(unit, unit) state" where
  "three_sites =
     \<lparr>heap = (\<lambda>r. if r = 0 then Directory_init ''siteA'' None None
                  else if r = 1 then Directory_init ''siteB'' None None
                  else Directory_init ''/www'' (Some ''ftp'') (Some [(''host'', ''example.org'')])),
      fs = [''siteA'' \<mapsto> Dir, ''siteB'' \<mapsto> Dir, ''siteB/.git_lock'' \<mapsto> File ''locked''],
      remote = (), trace = []\<rparr>"

definition three_cfg :: config where
  "three_cfg = \<lparr>cfg_path = ''src'', cfg_dirs = [0, 1, 2]\<rparr>"

text \<open>One local target whose commit marker holds a line that names no revision.\<close>

definition garbled_site :: "(unit, unit) state" where
  "garbled_site =
     \<lparr>heap = (\<lambda>_. Directory_init ''site'' None None),
      fs = [''site'' \<mapsto> Dir, ''site/.git_commit'' \<mapsto> File (''garbage'' @ [newline])],
      remote = (), trace = []\<rparr>"

text \<open>Three local targets in a row; in the second, \<^verbatim>\<open>siteA\<close>, a regular file \<^verbatim>\<open>b\<close> is in the
  way of the directory \<^verbatim>\<open>b\<close> of the source tree.\<close>

definition row_sites :: "(unit, unit) state" where
  "row_sites =
     \<lparr>heap = (\<lambda>r. if r = 0 then Directory_init ''siteB'' None None
                  else if r = 1 then Directory_init ''siteA'' None None
                  else Directory_init ''siteC'' None None),
      fs = [''src'' \<mapsto> Dir, ''src/b'' \<mapsto> Dir, ''src/b/c.txt'' \<mapsto> File ''data'',
            ''siteA'' \<mapsto> Dir, ''siteA/b'' \<mapsto> File ''in the way'', ''siteB'' \<mapsto> Dir,
            ''siteC'' \<mapsto> Dir],
      remote = (), trace = []\<rparr>"

definition row_cfg :: config where
  "row_cfg = \<lparr>cfg_path = ''src'', cfg_dirs = [0, 1, 2]\<rparr>"



section \<open>The methods on a local target\<close>

lemmas prog_defs = ret_def raise_def seq_def try_except_def lift_def obj_def get_fs_def
  on_fs_def emit_def print_def update_obj_def on_remote_def get_handle_def

lemma check_file_exists_local:
  "connection_mode (heap s r) = None \<Longrightarrow>
   check_file_exists L r fn s = (Inr (os_path_exists (path_join (path (heap s r)) fn) (fs s)), s)"
  by (simp add: check_file_exists_def prog_defs)

lemma write_new_file_local:
  "connection_mode (heap s r) = None \<Longrightarrow>
   write_new_file L r fn c s =
     (case fs_write (path_join (path (heap s r)) fn) c (fs s) of
        Inl e \<Rightarrow> (Inl e, s\<lparr>trace := trace s @ [Print ''None'']\<rparr>)
      | Inr f \<Rightarrow> (Inr (), s\<lparr>fs := f,
           trace := trace s @ [Print ''None'', Wrote (path_join (path (heap s r)) fn) c]\<rparr>))"
  by (simp add: write_new_file_def prog_defs show_mode_def split: sum.splits)

lemma read_local:
  "connection_mode (heap s r) = None \<Longrightarrow>
   read_root_dir_file_contents L r fn s =
     (case fs_read (path_join (path (heap s r)) fn) (fs s) of
        Inl e \<Rightarrow> (Inl e, s) | Inr c \<Rightarrow> (Inr (butlast c), s))"
  by (simp add: read_root_dir_file_contents_def prog_defs split: sum.splits)

text \<open>What is read back after a marker has been written, on any local target: the
  contents without their last character.\<close>

lemma roundtrip_local:
  assumes "connection_mode (heap s r) = None"
    and "write_new_file L r COMMIT_FILE c s = (Inr (), s')"
  shows "fst (read_root_dir_file_contents L r COMMIT_FILE s') = Inr (butlast c)"
  using assms
  by (auto simp: write_new_file_local read_local fs_write_def fs_read_def
      split: sum.splits if_splits)

lemma delete_file_local:
  "connection_mode (heap s r) = None \<Longrightarrow>
   delete_file L r fn s =
     (if os_path_exists (path_join (path (heap s r)) LOCK_FILE) (fs s) then
        (case fs s (path_join (path (heap s r)) fn) of
           None \<Rightarrow> (Inr (), s)
         | Some (File c) \<Rightarrow>
             (Inr (), s\<lparr>fs := (fs s)(path_join (path (heap s r)) fn := None),
                        trace := trace s @ [Removed (path_join (path (heap s r)) fn)]\<rparr>)
         | Some Dir \<Rightarrow> (Inl (Exn OSError []), s))
      else (Inr (), s))"
  by (simp add: delete_file_def check_locked_def check_file_exists_local prog_defs
      os_path_exists_def fs_remove_def split: option.splits node.splits)

lemma delete_file_unlocked:
  "check_locked L r s = (Inr False, s1) \<Longrightarrow> delete_file L r fn s = (Inr (), s1)"
  by (simp add: delete_file_def seq_def ret_def)

section \<open>Sequencing and observations that a program keeps\<close>

lemma copied_append: "copied (xs @ ys) = copied xs @ copied ys"
  by (induction xs rule: copied.induct) auto

lemma deploys_append: "deploys (xs @ ys) = deploys xs @ deploys ys"
  by (induction xs rule: deploys.induct) auto

lemma keepsD: "keeps g m \<Longrightarrow> m s = (res, s') \<Longrightarrow> g s' = g s"
  by (auto simp: keeps_def dest: spec [of _ s])

lemma seq_InrE:
  assumes "seq m f s = (Inr y, s')"
  obtains x s1 where "m s = (Inr x, s1)" and "f x s1 = (Inr y, s')"
  using assms by (auto simp: seq_def split: prod.splits sum.splits)

lemma seq_cases:
  assumes "seq m f s = (res, s')"
  obtains (raised) e where "m s = (Inl e, s')" and "res = Inl e"
  | (went_on) x s1 where "m s = (Inr x, s1)" and "f x s1 = (res, s')"
  using assms by (auto simp: seq_def split: prod.splits sum.splits)

lemma keeps_ret: "keeps g (ret x)" by (simp add: keeps_def ret_def)
lemma keeps_raise: "keeps g (raise e)" by (simp add: keeps_def raise_def)
lemma keeps_lift: "keeps g (lift x)" by (simp add: keeps_def lift_def)
lemma keeps_obj: "keeps g (obj r)" by (simp add: keeps_def obj_def)
lemma keeps_get_fs: "keeps g get_fs" by (simp add: keeps_def get_fs_def)
lemma keeps_get_handle: "keeps g (get_handle r)"
  by (simp add: keeps_def get_handle_def split: option.splits)

lemma keeps_seq: "keeps g m \<Longrightarrow> (\<And>x. keeps g (f x)) \<Longrightarrow> keeps g (seq m f)"
  unfolding keeps_def seq_def
  by (auto split: prod.splits sum.splits) (metis snd_conv)+

lemma keeps_try: "keeps g m \<Longrightarrow> (\<And>e. keeps g (h e)) \<Longrightarrow> keeps g (try_except m c h)"
  unfolding keeps_def try_except_def
  by (auto split: prod.splits sum.splits) (metis snd_conv)+

lemma keeps_if: "(c \<Longrightarrow> keeps g a) \<Longrightarrow> (\<not> c \<Longrightarrow> keeps g b) \<Longrightarrow> keeps g (if c then a else b)"
  by simp

lemma keeps_case_option:
  "(x = None \<Longrightarrow> keeps g a) \<Longrightarrow> (\<And>v. x = Some v \<Longrightarrow> keeps g (b v))
   \<Longrightarrow> keeps g (case x of None \<Rightarrow> a | Some v \<Rightarrow> b v)"
  by (cases x) simp_all

lemma keeps_for_each: "(\<And>x. keeps g (body x)) \<Longrightarrow> keeps g (for_each xs body)"
  by (induction xs) (auto intro: keeps_ret keeps_seq)

lemma keeps_emit: "(\<And>s. g (s\<lparr>trace := trace s @ [e]\<rparr>) = g s) \<Longrightarrow> keeps g (emit e)"
  by (simp add: keeps_def emit_def)

lemma keeps_print: "(\<And>s. g (s\<lparr>trace := trace s @ [Print e]\<rparr>) = g s) \<Longrightarrow> keeps g (print e)"
  by (simp add: print_def keeps_emit)

lemma keeps_on_fs: "(\<And>s f. g (s\<lparr>fs := f\<rparr>) = g s) \<Longrightarrow> keeps g (on_fs op)"
  by (simp add: keeps_def on_fs_def split: sum.splits)

lemma keeps_on_remote: "(\<And>s r. g (s\<lparr>remote := r\<rparr>) = g s) \<Longrightarrow> keeps g (on_remote op)"
  by (simp add: keeps_def on_remote_def split: prod.splits)

lemma keeps_update_obj:
  "(\<And>s h. g (s\<lparr>heap := h\<rparr>) = g s) \<Longrightarrow> keeps g (update_obj r f)"
  by (simp add: keeps_def update_obj_def)

lemmas keeps_intros = keeps_ret keeps_raise keeps_lift keeps_obj keeps_get_fs
  keeps_get_handle keeps_seq keeps_try keeps_if keeps_case_option keeps_for_each keeps_emit
  keeps_print keeps_on_fs keeps_on_remote keeps_update_obj

text \<open>No method changes a \<^verbatim>\<open>Directory\<close> object, except \<open>connect\<close> and the commit check.\<close>

lemma keeps_heap_check_file_exists: "keeps heap (check_file_exists L r fn)"
  unfolding check_file_exists_def by (intro keeps_intros; simp)

lemma keeps_heap_write_new_file: "keeps heap (write_new_file L r fn c)"
  unfolding write_new_file_def by (intro keeps_intros; simp)

lemma keeps_heap_copy_file: "keeps heap (copy_file L r fn c)"
  unfolding copy_file_def by (intro keeps_intros; simp)

lemma keeps_heap_rename_file: "keeps heap (rename_file L r fn c)"
  unfolding rename_file_def by (intro keeps_intros; simp)

lemma keeps_heap_delete_file: "keeps heap (delete_file L r fn)"
  unfolding delete_file_def check_locked_def
  by (intro keeps_intros keeps_heap_check_file_exists; simp)

lemma keeps_heap_deploy_item: "keeps heap (deploy_item L r cfg item)"
  unfolding deploy_item_def
  by (intro keeps_intros keeps_heap_delete_file keeps_heap_rename_file keeps_heap_copy_file)

lemma keeps_heap_deploy: "keeps heap (deploy L G r c cfg)"
  unfolding deploy_def deploy_diff_def deploy_tree_def
  by (intro keeps_intros keeps_heap_deploy_item keeps_heap_copy_file
      keeps_heap_write_new_file keeps_heap_delete_file; simp)

lemma keeps_heap_abort: "keeps heap (abort L r)"
  unfolding abort_def by (intro keeps_intros keeps_heap_delete_file; simp)

text \<open>Only \<open>deploy\<close> logs a \<open>Deploy\<close> event.\<close>

lemma keeps_deploys_check_file_exists: "keeps (\<lambda>s. deploys (trace s)) (check_file_exists L r fn)"
  unfolding check_file_exists_def by (intro keeps_intros; simp add: deploys_append)

lemma keeps_deploys_write_new_file: "keeps (\<lambda>s. deploys (trace s)) (write_new_file L r fn c)"
  unfolding write_new_file_def by (intro keeps_intros; simp add: deploys_append)

lemma keeps_deploys_copy_file: "keeps (\<lambda>s. deploys (trace s)) (copy_file L r fn c)"
  unfolding copy_file_def by (intro keeps_intros; simp add: deploys_append)

lemma keeps_deploys_rename_file: "keeps (\<lambda>s. deploys (trace s)) (rename_file L r fn c)"
  unfolding rename_file_def by (intro keeps_intros; simp add: deploys_append)

lemma keeps_deploys_delete_file: "keeps (\<lambda>s. deploys (trace s)) (delete_file L r fn)"
  unfolding delete_file_def check_locked_def
  by (intro keeps_intros keeps_deploys_check_file_exists; simp add: deploys_append)

lemma keeps_deploys_deploy_item: "keeps (\<lambda>s. deploys (trace s)) (deploy_item L r cfg item)"
  unfolding deploy_item_def
  by (intro keeps_intros keeps_deploys_delete_file keeps_deploys_rename_file
      keeps_deploys_copy_file)

lemma keeps_deploys_abort: "keeps (\<lambda>s. deploys (trace s)) (abort L r)"
  unfolding abort_def by (intro keeps_intros keeps_deploys_delete_file; simp add: deploys_append)

text \<open>One call of deploy logs one Deploy event, whatever its outcome.\<close>

lemma deploy_deploys:
  assumes "deploy L G r c cfg s = (res, s')"
  shows "deploys (trace s') = deploys (trace s) @ [path (heap s r)]"
proof -
  let ?rest = "seq (if commit (heap s r) \<noteq> PyNone then
            seq (lift (commit_diff G (commit (heap s r)) c)) (\<lambda>diff. deploy_diff L r diff cfg)
          else
            seq (lift (ls_files G (cfg_path cfg))) (\<lambda>listing.
            deploy_tree L r (split_on newline listing) cfg)) (\<lambda>_.
     seq (lift (get_hexsha c)) (\<lambda>h.
     seq (write_new_file L r COMMIT_FILE h) (\<lambda>_.
     seq (delete_file L r LOCK_FILE) (\<lambda>_.
     ret True))))"
  have k: "keeps (\<lambda>s. deploys (trace s)) ?rest"
    unfolding deploy_diff_def deploy_tree_def
    by (intro keeps_intros keeps_deploys_deploy_item keeps_deploys_copy_file
        keeps_deploys_write_new_file keeps_deploys_delete_file; simp add: deploys_append)
  have "?rest (s\<lparr>trace := trace s @ [Deploy (path (heap s r))]\<rparr>) = (res, s')"
    using assms by (simp add: deploy_def seq_def obj_def emit_def)
  from keepsD [OF k this] show ?thesis by (simp add: deploys_append)
qed


lemma deploy_step:
  assumes "seq (deploy L G r c cfg) (\<lambda>ok.
         if ok then
           seq (obj r) (\<lambda>d. print (''Deployed successfully to  '' @ path d))
         else ret ()) s = (res, s')"
  shows "deploys (trace s') = deploys (trace s) @ [path (heap s r)] \<and> heap s' = heap s"
  using assms
proof (cases rule: seq_cases)
  case (raised e)
  then show ?thesis
    using deploy_deploys [of L G r c cfg s "Inl e" s'] keepsD [OF keeps_heap_deploy, of L G r c cfg s "Inl e" s']
    by simp
next
  case (went_on x s1)
  from went_on(1) have a: "deploys (trace s1) = deploys (trace s) @ [path (heap s r)]"
    and b: "heap s1 = heap s"
    using deploy_deploys keepsD [OF keeps_heap_deploy] by blast+
  from went_on(2) have "deploys (trace s') = deploys (trace s1) \<and> heap s' = heap s1"
    by (auto simp: prog_defs deploys_append split: if_splits)
  with a b show ?thesis by simp
qed

lemma deploy_loop:
  assumes "for_each ds (\<lambda>r. seq (deploy L G r c cfg) (\<lambda>ok.
         if ok then
           seq (obj r) (\<lambda>d. print (''Deployed successfully to  '' @ path d))
         else ret ())) s = (res, s')"
  shows "heap s' = heap s \<and>
    (case res of
       Inr _ \<Rightarrow> deploys (trace s') = deploys (trace s) @ map (\<lambda>r. path (heap s r)) ds
     | Inl e \<Rightarrow> \<exists>ds1 r ds2. ds = ds1 @ r # ds2
          \<and> deploys (trace s') = deploys (trace s) @ map (\<lambda>r. path (heap s r)) (ds1 @ [r]))"
  using assms
proof (induction ds arbitrary: s)
  case Nil
  then show ?case by (auto simp: ret_def)
next
  case (Cons r ds)
  from Cons.prems have "seq (seq (deploy L G r c cfg) (\<lambda>ok.
         if ok then
           seq (obj r) (\<lambda>d. print (''Deployed successfully to  '' @ path d))
         else ret ())) (\<lambda>_. for_each ds (\<lambda>r. seq (deploy L G r c cfg) (\<lambda>ok.
         if ok then
           seq (obj r) (\<lambda>d. print (''Deployed successfully to  '' @ path d))
         else ret ()))) s = (res, s')"
    by simp
  then show ?case
  proof (cases rule: seq_cases)
    case (raised e)
    from deploy_step [OF raised(1)] raised(2) show ?thesis
      by (auto intro!: exI [of _ "[]"])
  next
    case (went_on x s1)
    from deploy_step [OF went_on(1)]
    have a: "deploys (trace s1) = deploys (trace s) @ [path (heap s r)]" and b: "heap s1 = heap s"
      by simp_all
    from Cons.IH [OF went_on(2)] have ih: "heap s' = heap s1 \<and>
      (case res of
         Inr _ \<Rightarrow> deploys (trace s') = deploys (trace s1) @ map (\<lambda>r. path (heap s1 r)) ds
       | Inl e \<Rightarrow> \<exists>ds1 r ds2. ds = ds1 @ r # ds2
            \<and> deploys (trace s') = deploys (trace s1) @ map (\<lambda>r. path (heap s1 r)) (ds1 @ [r]))" .
    show ?thesis
    proof (cases res)
      case (Inr u)
      with ih a b show ?thesis by simp
    next
      case (Inl e)
      with ih obtain ds1 r' ds2 where "ds = ds1 @ r' # ds2"
        and "deploys (trace s') = deploys (trace s1) @ map (\<lambda>r. path (heap s1 r)) (ds1 @ [r'])"
        by auto
      then have "r # ds = (r # ds1) @ r' # ds2
        \<and> deploys (trace s') = deploys (trace s) @ map (\<lambda>r. path (heap s r)) ((r # ds1) @ [r'])"
        using a b by simp
      then show ?thesis using Inl ih b by (simp only: sum.case) blast
    qed
  qed
qed

lemma last_lock_path: "last (path_join a LOCK_FILE) = CHR ''k''"
  by (simp add: path_join_def LOCK_FILE_def slash_def)

lemma last_commit_path: "last (path_join a COMMIT_FILE) = CHR ''t''"
  by (simp add: path_join_def COMMIT_FILE_def slash_def)

lemma lock_path_neq_commit_path: "path_join a LOCK_FILE \<noteq> path_join b COMMIT_FILE"
proof
  assume "path_join a LOCK_FILE = path_join b COMMIT_FILE"
  then have "last (path_join a LOCK_FILE) = last (path_join b COMMIT_FILE)" by simp
  then show False by (simp add: last_lock_path last_commit_path)
qed

lemmas eval_defs = prog_defs Directory_init_def path_join_def slash_def newline_def tab_def
  LOCK_FILE_def COMMIT_FILE_def dirname_def upto_last_slash_def basename_def
  os_path_exists_def parent_exists_def fs_write_def fs_read_def fs_remove_def fs_makedirs_def
  check_locked_def check_file_exists_def write_new_file_def copy_file_def delete_file_def
  deploy_def deploy_tree_def deploy_diff_def deploy_item_def get_hexsha_def show_mode_def
  connect_def lock_def lock_dirs_def abort_def abort_dirs_def list_dirs_def unable_msg_def
  resolve_commit_def check_dirs_configured_def check_valid_commit_def
  read_root_dir_file_contents_def deploy_all_def run_def class_is_Commit_def
  is_IOError_def is_Exception_def

section \<open>The lock phase without FTP targets\<close>

lemma connect_not_ftp:
  "connection_mode (heap s r) \<noteq> Some ''FTP'' \<Longrightarrow>
   connect L r s =
     (case connection_mode (heap s r) of
        None \<Rightarrow> (Inr (), s)
      | Some m \<Rightarrow> (Inl (Exn Exception (''Unsupported connection mode: '' @ m)), s))"
  by (simp add: connect_def prog_defs split: option.splits)

lemma lock_local:
  "connection_mode (heap s r) = None \<Longrightarrow>
   lock L r s =
     (case fs_write (path_join (path (heap s r)) LOCK_FILE) ''locked'' (fs s) of
        Inl e \<Rightarrow> (Inr False, s\<lparr>trace := trace s @ [Print ''None'',
                      Print (''Unable to write file: '' @ message e)]\<rparr>)
      | Inr f \<Rightarrow> (Inr True, s\<lparr>fs := f, trace := trace s @ [Print ''None'',
                      Wrote (path_join (path (heap s r)) LOCK_FILE) ''locked'']\<rparr>))"
  by (simp add: lock_def write_new_file_local prog_defs is_IOError_def fs_write_def
      split: sum.splits)

lemma lock_loop_unsupported:
  assumes "connection_mode (heap s r) = Some m" and "m \<noteq> ''FTP''"
  shows "lock_loop L (r # rs) acc s =
    lock_loop L rs (acc\<lparr>cannot_lock := cannot_lock acc @ [r]\<rparr>)
      (s\<lparr>trace := trace s @ [Print (''Unsupported connection mode: '' @ m)]\<rparr>)"
  using assms by (simp add: connect_not_ftp prog_defs is_Exception_def)

lemma lock_loop_already:
  assumes "connection_mode (heap s r) = None"
    and "fs s (path_join (path (heap s r)) LOCK_FILE) \<noteq> None"
  shows "lock_loop L (r # rs) acc s =
    lock_loop L rs (acc\<lparr>already_locked_dirs := already_locked_dirs acc @ [r]\<rparr>) s"
  using assms
  by (simp add: connect_not_ftp check_locked_def check_file_exists_local os_path_exists_def
      prog_defs)

lemma lock_loop_locks:
  assumes "connection_mode (heap s r) = None"
    and "fs s (path_join (path (heap s r)) LOCK_FILE) = None"
    and "fs_write (path_join (path (heap s r)) LOCK_FILE) ''locked'' (fs s) = Inr f"
  shows "lock_loop L (r # rs) acc s =
    lock_loop L rs (acc\<lparr>locked_dirs := locked_dirs acc @ [r]\<rparr>)
      (s\<lparr>fs := (fs s)(path_join (path (heap s r)) LOCK_FILE \<mapsto> File ''locked''),
         trace := trace s @ [Print ''None'',
                      Wrote (path_join (path (heap s r)) LOCK_FILE) ''locked'']\<rparr>)"
proof -
  from assms(3) have "f = (fs s)(path_join (path (heap s r)) LOCK_FILE \<mapsto> File ''locked'')"
    by (auto simp: fs_write_def split: if_splits)
  with assms show ?thesis
    by (simp add: connect_not_ftp check_locked_def check_file_exists_local os_path_exists_def
        lock_local seq_def ret_def try_except_def)
qed

lemma lock_loop_cannot:
  assumes "connection_mode (heap s r) = None"
    and "fs s (path_join (path (heap s r)) LOCK_FILE) = None"
    and "fs_write (path_join (path (heap s r)) LOCK_FILE) ''locked'' (fs s) = Inl e"
  shows "lock_loop L (r # rs) acc s =
    lock_loop L rs (acc\<lparr>cannot_lock := cannot_lock acc @ [r]\<rparr>)
      (s\<lparr>trace := trace s @ [Print ''None'', Print (''Unable to write file: '' @ message e)]\<rparr>)"
  using assms
  by (simp add: connect_not_ftp check_locked_def check_file_exists_local os_path_exists_def
      lock_local seq_def ret_def try_except_def)


lemma lock_post_cong:
  assumes "heap s1 = heap s" "remote s1 = remote s" "fs s1 = fs s"
  shows "lock_post s1 rs acc acc' s' = lock_post s rs acc acc' s'"
  unfolding lock_post_def by (simp only: assms)


lemma lock_postE:
  assumes "lock_post s rs acc acc' s'"
  obtains new al cl where
      "heap s' = heap s" "remote s' = remote s"
      "locked_dirs acc' = locked_dirs acc @ new"
      "already_locked_dirs acc' = already_locked_dirs acc @ al"
      "cannot_lock acc' = cannot_lock acc @ cl"
      "\<forall>r \<in> set new. connection_mode (heap s r) = None \<and> fs s (lock_path s r) = None"
      "fs s' = (\<lambda>p. if p \<in> lock_path s ` set new then Some (File ''locked'') else fs s p)"
      "al = [] \<and> cl = [] \<longrightarrow> new = rs"
      "(\<exists>r \<in> set rs. connection_mode (heap s r) = None \<and> fs s (lock_path s r) \<noteq> None)
            \<longrightarrow> al \<noteq> []"
  using assms unfolding lock_post_def by blast

lemma lock_postI:
  assumes
      "heap s' = heap s" "remote s' = remote s"
      "locked_dirs acc' = locked_dirs acc @ new"
      "already_locked_dirs acc' = already_locked_dirs acc @ al"
      "cannot_lock acc' = cannot_lock acc @ cl"
      "\<forall>r \<in> set new. connection_mode (heap s r) = None \<and> fs s (lock_path s r) = None"
      "fs s' = (\<lambda>p. if p \<in> lock_path s ` set new then Some (File ''locked'') else fs s p)"
      "al = [] \<and> cl = [] \<longrightarrow> new = rs"
      "(\<exists>r \<in> set rs. connection_mode (heap s r) = None \<and> fs s (lock_path s r) \<noteq> None)
            \<longrightarrow> al \<noteq> []"
  shows "lock_post s rs acc acc' s'"
  unfolding lock_post_def using assms by blast


lemma lock_post_cannot:
  assumes post: "lock_post s rs (acc\<lparr>cannot_lock := cannot_lock acc @ [r]\<rparr>) acc' s'"
    and no: "connection_mode (heap s r) \<noteq> None \<or> fs s (lock_path s r) = None"
  shows "lock_post s (r # rs) acc acc' s'"
  using post
proof (rule lock_postE)
  fix new al cl
  assume h: "heap s' = heap s" and rm: "remote s' = remote s"
    and l: "locked_dirs acc' = locked_dirs (acc\<lparr>cannot_lock := cannot_lock acc @ [r]\<rparr>) @ new"
    and a: "already_locked_dirs acc'
        = already_locked_dirs (acc\<lparr>cannot_lock := cannot_lock acc @ [r]\<rparr>) @ al"
    and c: "cannot_lock acc' = cannot_lock (acc\<lparr>cannot_lock := cannot_lock acc @ [r]\<rparr>) @ cl"
    and n: "\<forall>r \<in> set new. connection_mode (heap s r) = None \<and> fs s (lock_path s r) = None"
    and f: "fs s' = (\<lambda>p. if p \<in> lock_path s ` set new then Some (File ''locked'') else fs s p)"
    and e: "(\<exists>r \<in> set rs. connection_mode (heap s r) = None \<and> fs s (lock_path s r) \<noteq> None)
            \<longrightarrow> al \<noteq> []"
  show ?thesis
  proof (rule lock_postI [where new = new and al = al and cl = "r # cl"])
    show "locked_dirs acc' = locked_dirs acc @ new" using l by simp
    show "already_locked_dirs acc' = already_locked_dirs acc @ al" using a by simp
    show "cannot_lock acc' = cannot_lock acc @ r # cl" using c by simp
    show "al = [] \<and> r # cl = [] \<longrightarrow> new = r # rs" by simp
    show "(\<exists>r \<in> set (r # rs). connection_mode (heap s r) = None
        \<and> fs s (lock_path s r) \<noteq> None) \<longrightarrow> al \<noteq> []"
      using e no by auto
  qed (fact h rm n f)+
qed

lemma lock_post_already:
  assumes post: "lock_post s rs
      (acc\<lparr>already_locked_dirs := already_locked_dirs acc @ [r]\<rparr>) acc' s'"
  shows "lock_post s (r # rs) acc acc' s'"
  using post
proof (rule lock_postE)
  fix new al cl
  assume h: "heap s' = heap s" and rm: "remote s' = remote s"
    and l: "locked_dirs acc'
        = locked_dirs (acc\<lparr>already_locked_dirs := already_locked_dirs acc @ [r]\<rparr>) @ new"
    and a: "already_locked_dirs acc'
        = already_locked_dirs (acc\<lparr>already_locked_dirs := already_locked_dirs acc @ [r]\<rparr>) @ al"
    and c: "cannot_lock acc'
        = cannot_lock (acc\<lparr>already_locked_dirs := already_locked_dirs acc @ [r]\<rparr>) @ cl"
    and n: "\<forall>r \<in> set new. connection_mode (heap s r) = None \<and> fs s (lock_path s r) = None"
    and f: "fs s' = (\<lambda>p. if p \<in> lock_path s ` set new then Some (File ''locked'') else fs s p)"
  show ?thesis
  proof (rule lock_postI [where new = new and al = "r # al" and cl = cl])
    show "locked_dirs acc' = locked_dirs acc @ new" using l by simp
    show "already_locked_dirs acc' = already_locked_dirs acc @ r # al" using a by simp
    show "cannot_lock acc' = cannot_lock acc @ cl" using c by simp
    show "r # al = [] \<and> cl = [] \<longrightarrow> new = r # rs" by simp
    show "(\<exists>r \<in> set (r # rs). connection_mode (heap s r) = None
        \<and> fs s (lock_path s r) \<noteq> None) \<longrightarrow> r # al \<noteq> []"
      by simp
  qed (fact h rm n f)+
qed

lemma lock_post_locks:
  assumes post: "lock_post s1 rs (acc\<lparr>locked_dirs := locked_dirs acc @ [r]\<rparr>) acc' s'"
    and hs: "heap s1 = heap s" and rs: "remote s1 = remote s"
    and fs1: "fs s1 = (fs s)(lock_path s r \<mapsto> File ''locked'')"
    and loc: "connection_mode (heap s r) = None" and free: "fs s (lock_path s r) = None"
  shows "lock_post s (r # rs) acc acc' s'"
  using post
proof (rule lock_postE)
  fix new al cl
  assume h: "heap s' = heap s1" and rm: "remote s' = remote s1"
    and l: "locked_dirs acc' = locked_dirs (acc\<lparr>locked_dirs := locked_dirs acc @ [r]\<rparr>) @ new"
    and a: "already_locked_dirs acc'
        = already_locked_dirs (acc\<lparr>locked_dirs := locked_dirs acc @ [r]\<rparr>) @ al"
    and c: "cannot_lock acc' = cannot_lock (acc\<lparr>locked_dirs := locked_dirs acc @ [r]\<rparr>) @ cl"
    and n: "\<forall>r \<in> set new. connection_mode (heap s1 r) = None \<and> fs s1 (lock_path s1 r) = None"
    and f: "fs s' = (\<lambda>p. if p \<in> lock_path s1 ` set new then Some (File ''locked'') else fs s1 p)"
    and t: "al = [] \<and> cl = [] \<longrightarrow> new = rs"
    and e: "(\<exists>r \<in> set rs. connection_mode (heap s1 r) = None
          \<and> fs s1 (lock_path s1 r) \<noteq> None) \<longrightarrow> al \<noteq> []"
  have n1: "\<And>x. x \<in> set new \<Longrightarrow> connection_mode (heap s x) = None
       \<and> fs s (lock_path s x) = None"
  proof -
    fix x assume "x \<in> set new"
    with n have "connection_mode (heap s1 x) = None" and "fs s1 (lock_path s1 x) = None"
      by blast+
    then show "connection_mode (heap s x) = None \<and> fs s (lock_path s x) = None"
      unfolding hs fs1 by (simp split: if_splits)
  qed
  show ?thesis
  proof (rule lock_postI [where new = "r # new" and al = al and cl = cl])
    show "heap s' = heap s" using h hs by simp
    show "remote s' = remote s" using rm rs by simp
    show "locked_dirs acc' = locked_dirs acc @ r # new" using l by simp
    show "already_locked_dirs acc' = already_locked_dirs acc @ al" using a by simp
    show "cannot_lock acc' = cannot_lock acc @ cl" using c by simp
    show "\<forall>x \<in> set (r # new). connection_mode (heap s x) = None
        \<and> fs s (lock_path s x) = None"
      using n1 loc free by simp
    show "fs s' = (\<lambda>p. if p \<in> lock_path s ` set (r # new) then Some (File ''locked'')
        else fs s p)"
      unfolding f hs fs1 by (rule ext) simp
    show "al = [] \<and> cl = [] \<longrightarrow> r # new = r # rs" using t by simp
    show "(\<exists>x \<in> set (r # rs). connection_mode (heap s x) = None
        \<and> fs s (lock_path s x) \<noteq> None) \<longrightarrow> al \<noteq> []"
    proof
      assume "\<exists>x \<in> set (r # rs). connection_mode (heap s x) = None
        \<and> fs s (lock_path s x) \<noteq> None"
      then obtain x where x: "x \<in> set (r # rs)" "connection_mode (heap s x) = None"
        "fs s (lock_path s x) \<noteq> None" by blast
      with free have "x \<in> set rs" by auto
      moreover have "fs s1 (lock_path s1 x) \<noteq> None" using x(3) unfolding hs fs1 by simp
      ultimately show "al \<noteq> []" using e x(2) hs by auto
    qed
  qed
qed


lemma lock_loop_inv:
  assumes "\<forall>r \<in> set rs. connection_mode (heap s r) \<noteq> Some ''FTP''"
  shows "\<exists>acc' s'. lock_loop L rs acc s = (Inr acc', s') \<and> lock_post s rs acc acc' s'"
  using assms
proof (induction rs arbitrary: acc s)
  case Nil
  have "lock_post s [] acc acc s"
    by (rule lock_postI [where new = "[]" and al = "[]" and cl = "[]"]) simp_all
  then show ?case by (simp add: ret_def)
next
  case (Cons r rs)
  show ?case
  proof (cases "connection_mode (heap s r)")
    case (Some m)
    with Cons.prems have m: "m \<noteq> ''FTP''" by auto
    let ?s1 = "s\<lparr>trace := trace s @ [Print (''Unsupported connection mode: '' @ m)]\<rparr>"
    let ?acc1 = "acc\<lparr>cannot_lock := cannot_lock acc @ [r]\<rparr>"
    have "\<forall>r \<in> set rs. connection_mode (heap ?s1 r) \<noteq> Some ''FTP''"
      using Cons.prems by simp
    from Cons.IH [OF this, of ?acc1] obtain acc' s'
      where run: "lock_loop L rs ?acc1 ?s1 = (Inr acc', s')"
        and post: "lock_post ?s1 rs ?acc1 acc' s'" by blast
    have "lock_post s rs ?acc1 acc' s'"
      using post by (subst (asm) lock_post_cong [of ?s1 s]) simp_all
    then have "lock_post s (r # rs) acc acc' s'"
      by (rule lock_post_cannot) (simp add: Some)
    with run show ?thesis by (simp only: lock_loop_unsupported [OF Some m]) blast
  next
    case None
    show ?thesis
    proof (cases "fs s (lock_path s r)")
      case (Some n)
      let ?acc1 = "acc\<lparr>already_locked_dirs := already_locked_dirs acc @ [r]\<rparr>"
      have "\<forall>r \<in> set rs. connection_mode (heap s r) \<noteq> Some ''FTP''"
        using Cons.prems by simp
      from Cons.IH [OF this, of ?acc1] obtain acc' s'
        where run: "lock_loop L rs ?acc1 s = (Inr acc', s')"
          and post: "lock_post s rs ?acc1 acc' s'" by blast
      have ex: "fs s (lock_path s r) \<noteq> None" using Some by simp
      have "lock_post s (r # rs) acc acc' s'"
        by (rule lock_post_already [OF post])
      with run show ?thesis by (simp only: lock_loop_already [OF None ex]) blast
    next
      case nolock: None
      show ?thesis
      proof (cases "fs_write (lock_path s r) ''locked'' (fs s)")
        case (Inr f)
        let ?s1 = "s\<lparr>fs := (fs s)(lock_path s r \<mapsto> File ''locked''),
            trace := trace s @ [Print ''None'', Wrote (lock_path s r) ''locked'']\<rparr>"
        let ?acc1 = "acc\<lparr>locked_dirs := locked_dirs acc @ [r]\<rparr>"
        have "\<forall>r \<in> set rs. connection_mode (heap ?s1 r) \<noteq> Some ''FTP''"
          using Cons.prems by simp
        from Cons.IH [OF this, of ?acc1] obtain acc' s'
          where run: "lock_loop L rs ?acc1 ?s1 = (Inr acc', s')"
            and post: "lock_post ?s1 rs ?acc1 acc' s'" by blast
        have "lock_post s (r # rs) acc acc' s'"
          by (rule lock_post_locks [OF post]) (simp_all add: None nolock)
        with run show ?thesis by (simp only: lock_loop_locks [OF None nolock Inr]) blast
      next
        case (Inl e)
        let ?s1 = "s\<lparr>trace := trace s @ [Print ''None'',
            Print (''Unable to write file: '' @ message e)]\<rparr>"
        let ?acc1 = "acc\<lparr>cannot_lock := cannot_lock acc @ [r]\<rparr>"
        have "\<forall>r \<in> set rs. connection_mode (heap ?s1 r) \<noteq> Some ''FTP''"
          using Cons.prems by simp
        from Cons.IH [OF this, of ?acc1] obtain acc' s'
          where run: "lock_loop L rs ?acc1 ?s1 = (Inr acc', s')"
            and post: "lock_post ?s1 rs ?acc1 acc' s'" by blast
        have "lock_post s rs ?acc1 acc' s'"
          using post by (subst (asm) lock_post_cong [of ?s1 s]) simp_all
        then have "lock_post s (r # rs) acc acc' s'"
          by (rule lock_post_cannot) (simp add: nolock)
        with run show ?thesis by (simp only: lock_loop_cannot [OF None nolock Inl]) blast
      qed
    qed
  qed
qed


lemma abort_local:
  "connection_mode (heap s r) = None \<Longrightarrow>
   abort L r s =
     (case fs s (lock_path s r) of
        None \<Rightarrow> (Inr (), s)
      | Some (File c) \<Rightarrow>
          (Inr (), s\<lparr>fs := (fs s)(lock_path s r := None),
                     trace := trace s @ [Removed (lock_path s r)]\<rparr>)
      | Some Dir \<Rightarrow> (Inl (Exn OSError []), s))"
  by (simp add: abort_def delete_file_local seq_def obj_def ret_def os_path_exists_def
      split: option.splits node.splits)

lemma abort_all_local:
  assumes "\<forall>r \<in> set rs. connection_mode (heap s r) = None \<and> fs s (lock_path s r) \<noteq> Some Dir"
  shows "\<exists>s'. for_each rs (abort L) s = (Inr (), s') \<and> heap s' = heap s
     \<and> remote s' = remote s
     \<and> fs s' = (\<lambda>p. if p \<in> lock_path s ` set rs then None else fs s p)"
  using assms
proof (induction rs arbitrary: s)
  case Nil
  then show ?case by (simp add: ret_def)
next
  case (Cons r rs)
  then have loc: "connection_mode (heap s r) = None" and nd: "fs s (lock_path s r) \<noteq> Some Dir"
    by simp_all
  obtain s1 where a: "abort L r s = (Inr (), s1)" and h1: "heap s1 = heap s"
    and r1: "remote s1 = remote s" and f1: "fs s1 = (fs s)(lock_path s r := None)"
  proof (cases "fs s (lock_path s r)")
    case None
    then have "abort L r s = (Inr (), s)" "fs s = (fs s)(lock_path s r := None)"
      by (auto simp: abort_local [OF loc])
    then show ?thesis using that by blast
  next
    case (Some n)
    with nd obtain c where "fs s (lock_path s r) = Some (File c)" by (cases n) auto
    then have "abort L r s = (Inr (), s\<lparr>fs := (fs s)(lock_path s r := None),
                     trace := trace s @ [Removed (lock_path s r)]\<rparr>)"
      by (simp add: abort_local [OF loc])
    then show ?thesis using that by simp
  qed
  have "\<forall>x \<in> set rs. connection_mode (heap s1 x) = None \<and> fs s1 (lock_path s1 x) \<noteq> Some Dir"
    using Cons.prems by (simp add: h1 f1)
  from Cons.IH [OF this] obtain s' where b: "for_each rs (abort L) s1 = (Inr (), s')"
    and h: "heap s' = heap s1" and rm: "remote s' = remote s1"
    and f: "fs s' = (\<lambda>p. if p \<in> lock_path s1 ` set rs then None else fs s1 p)"
    by blast
  have "for_each (r # rs) (abort L) s = (Inr (), s')"
    using a b by (simp add: seq_def)
  moreover have "fs s' = (\<lambda>p. if p \<in> lock_path s ` set (r # rs) then None else fs s p)"
    unfolding f h1 f1 by (rule ext) simp
  ultimately show ?case using h h1 rm r1 by simp
qed

lemma abort_dirs_local:
  assumes "\<forall>r \<in> set rs. connection_mode (heap s r) = None \<and> fs s (lock_path s r) \<noteq> Some Dir"
  shows "\<exists>s'. abort_dirs L rs msg s = (Inr False, s') \<and> heap s' = heap s
     \<and> remote s' = remote s
     \<and> fs s' = (\<lambda>p. if p \<in> lock_path s ` set rs then None else fs s p)"
proof -
  from abort_all_local [OF assms] obtain s1 where
    "for_each rs (abort L) s = (Inr (), s1)" "heap s1 = heap s" "remote s1 = remote s"
    "fs s1 = (\<lambda>p. if p \<in> lock_path s ` set rs then None else fs s p)"
    by blast
  then show ?thesis
    by (simp add: abort_dirs_def seq_def print_def emit_def ret_def)
qed


lemma lock_dirs_unfold:
  assumes "lock_loop L (cfg_dirs cfg)
      \<lparr>locked_dirs = [], already_locked_dirs = [], cannot_lock = []\<rparr> s = (Inr acc, s1)"
  shows "lock_dirs L cfg s =
    (if already_locked_dirs acc \<noteq> [] then
       seq (abort_dirs L (locked_dirs acc)
              (unable_msg (list_dirs_from (heap s1) (already_locked_dirs acc)))) (\<lambda>_. ret None) s1
     else if cannot_lock acc \<noteq> [] then
       seq (abort_dirs L (locked_dirs acc)
              (unable_msg (list_dirs_from (heap s1) (cannot_lock acc)))) (\<lambda>_. ret None) s1
     else (Inr (Some (locked_dirs acc)), s1))"
  unfolding lock_dirs_def
  by (subst seq_def) (simp add: assms list_dirs_def seq_def ret_def)


text \<open>The lock phase on a configuration without FTP targets.\<close>

lemma lock_dirs_not_ftp:
  assumes "\<forall>r \<in> set (cfg_dirs cfg). connection_mode (heap s r) \<noteq> Some ''FTP''"
  shows "\<exists>res s'. lock_dirs L cfg s = (Inr res, s') \<and> heap s' = heap s \<and> remote s' = remote s
     \<and> (case res of
          None \<Rightarrow> fs s' = fs s
        | Some locked \<Rightarrow> locked = cfg_dirs cfg
            \<and> (\<forall>r \<in> set locked. connection_mode (heap s r) = None
                  \<and> fs s (lock_path s r) = None)
            \<and> fs s' = (\<lambda>p. if p \<in> lock_path s ` set locked then Some (File ''locked'')
                              else fs s p))
     \<and> ((\<exists>r \<in> set (cfg_dirs cfg). connection_mode (heap s r) = None
            \<and> fs s (lock_path s r) \<noteq> None) \<longrightarrow> res = None)"
proof -
  let ?acc0 = "\<lparr>locked_dirs = [], already_locked_dirs = [], cannot_lock = []\<rparr>"
  from lock_loop_inv [OF assms, of L ?acc0] obtain acc s1
    where loop: "lock_loop L (cfg_dirs cfg) ?acc0 s = (Inr acc, s1)"
      and post: "lock_post s (cfg_dirs cfg) ?acc0 acc s1" by blast
  note unf = lock_dirs_unfold [OF loop]
  from post obtain new al cl where
      h: "heap s1 = heap s" and rm: "remote s1 = remote s"
      and l0: "locked_dirs acc = locked_dirs ?acc0 @ new"
      and a0: "already_locked_dirs acc = already_locked_dirs ?acc0 @ al"
      and c0: "cannot_lock acc = cannot_lock ?acc0 @ cl"
      and n: "\<forall>r \<in> set new. connection_mode (heap s r) = None \<and> fs s (lock_path s r) = None"
      and f: "fs s1 = (\<lambda>p. if p \<in> lock_path s ` set new then Some (File ''locked'') else fs s p)"
      and t: "al = [] \<and> cl = [] \<longrightarrow> new = cfg_dirs cfg"
      and e: "(\<exists>r \<in> set (cfg_dirs cfg). connection_mode (heap s r) = None
            \<and> fs s (lock_path s r) \<noteq> None) \<longrightarrow> al \<noteq> []"
    by (rule lock_postE)
  have l: "locked_dirs acc = new" using l0 by simp
  have a: "already_locked_dirs acc = al" using a0 by simp
  have c: "cannot_lock acc = cl" using c0 by simp
  have pre: "\<forall>r \<in> set new. connection_mode (heap s1 r) = None
      \<and> fs s1 (lock_path s1 r) \<noteq> Some Dir"
    using n by (simp add: h f)
  have restored: "(\<lambda>p. if p \<in> lock_path s1 ` set new then None else fs s1 p) = fs s"
  proof (rule ext)
    fix p show "(if p \<in> lock_path s1 ` set new then None else fs s1 p) = fs s p"
      using n by (auto simp: f h)
  qed
  show ?thesis
  proof (cases "al = [] \<and> cl = []")
    case True
    then have ld: "lock_dirs L cfg s = (Inr (Some new), s1)"
      unfolding unf a c l by simp
    have nw: "new = cfg_dirs cfg" using True t by simp
    have none: "\<not> (\<exists>r \<in> set (cfg_dirs cfg). connection_mode (heap s r) = None
            \<and> fs s (lock_path s r) \<noteq> None)"
      using e True by blast
    show ?thesis
      apply (rule exI [of _ "Some new"], rule exI [of _ s1])
      apply (intro conjI)
          apply (rule ld)
         apply (rule h)
        apply (rule rm)
       apply (simp only: option.case)
       apply (intro conjI)
         apply (rule nw)
        apply (rule n)
       apply (rule f)
      using none apply blast
      done
  next
    case False
    have "\<exists>msg. lock_dirs L cfg s = seq (abort_dirs L new msg) (\<lambda>_. ret None) s1"
      unfolding unf a c l using False by auto
    then obtain msg where ld0: "lock_dirs L cfg s = seq (abort_dirs L new msg) (\<lambda>_. ret None) s1"
      by blast
    from abort_dirs_local [OF pre, of L msg]
    obtain s' where ab: "abort_dirs L new msg s1 = (Inr False, s')"
      and h': "heap s' = heap s1" and rm': "remote s' = remote s1"
      and f': "fs s' = (\<lambda>p. if p \<in> lock_path s1 ` set new then None else fs s1 p)"
      by blast
    have ld: "lock_dirs L cfg s = (Inr None, s')"
      unfolding ld0 by (simp add: seq_def ab ret_def)
    have fr: "fs s' = fs s" unfolding f' by (rule restored)
    show ?thesis
      apply (rule exI [of _ None], rule exI [of _ s'])
      apply (intro conjI)
          apply (rule ld)
         apply (simp only: h h')
        apply (simp only: rm rm')
       apply (simp only: option.case fr)
      apply simp
      done
  qed
qed


section \<open>Observations of the log\<close>

lemma resolved_append: "resolved (xs @ ys) = resolved xs @ resolved ys"
  by (induction xs rule: resolved.induct) auto

lemma ig_fs: "ignores Q g \<Longrightarrow> g (s\<lparr>fs := f\<rparr>) = g s"
  and ig_remote: "ignores Q g \<Longrightarrow> g (s\<lparr>remote := r\<rparr>) = g s"
  and ig_heap: "ignores Q g \<Longrightarrow> g (s\<lparr>heap := h\<rparr>) = g s"
  and ig_emit: "ignores Q g \<Longrightarrow> Q e \<Longrightarrow> g (s\<lparr>trace := trace s @ [e]\<rparr>) = g s"
  by (simp_all add: ignores_def)

lemma ignores_deploys: "ignores no_deploy_event (\<lambda>s. deploys (trace s))"
  unfolding ignores_def
  by (auto simp: deploys_append elim: no_deploy_event.elims)

lemma ignores_copied: "ignores no_deploy_event (\<lambda>s. copied (trace s))"
  unfolding ignores_def
  by (auto simp: copied_append elim: no_deploy_event.elims)

lemma ignores_resolved: "ignores no_resolve_event (\<lambda>s. resolved (trace s))"
  unfolding ignores_def
  by (auto simp: resolved_append elim: no_resolve_event.elims)

lemmas ig_rules = ig_fs ig_remote ig_heap ig_emit

lemma ig_check_file_exists:
  assumes "ignores Q g"
  shows "keeps g (check_file_exists L r fn)"
  unfolding check_file_exists_def by (intro keeps_intros; simp add: ig_rules [OF assms])

lemma ig_write_new_file:
  assumes "ignores Q g" and "\<And>m. Q (Print m)" and "\<And>p c. Q (Wrote p c)"
  shows "keeps g (write_new_file L r fn c)"
  unfolding write_new_file_def
  by (intro keeps_intros; simp add: ig_rules [OF assms(1)] assms)

lemma ig_delete_file:
  assumes "ignores Q g" and "\<And>p. Q (Removed p)"
  shows "keeps g (delete_file L r fn)"
  unfolding delete_file_def check_locked_def
  by (intro keeps_intros ig_check_file_exists [OF assms(1)];
      simp add: ig_rules [OF assms(1)] assms)

lemma ig_copy_file:
  assumes "ignores Q g" and "\<And>d s. Q (Copied d s)"
  shows "keeps g (copy_file L r fn c)"
  unfolding copy_file_def by (intro keeps_intros; simp add: ig_rules [OF assms(1)] assms)

lemma ig_rename_file:
  assumes "ignores Q g"
  shows "keeps g (rename_file L r a b)"
  unfolding rename_file_def by (intro keeps_intros; simp add: ig_rules [OF assms])

lemma ig_abort:
  assumes "ignores Q g" and "\<And>p. Q (Removed p)"
  shows "keeps g (abort L r)"
  unfolding abort_def
  by (intro keeps_intros ig_delete_file [OF assms]; simp add: ig_rules [OF assms(1)])

lemma ig_abort_dirs:
  assumes "ignores Q g" and "\<And>p. Q (Removed p)" and "\<And>m. Q (Print m)"
  shows "keeps g (abort_dirs L rs msg)"
  unfolding abort_dirs_def
  by (intro keeps_intros ig_abort [OF assms(1,2)]; simp add: ig_rules [OF assms(1)] assms)

lemma keeps_list_dirs: "keeps g (list_dirs rs)"
  by (simp add: keeps_def list_dirs_def)

lemma keeps_case_prod:
  "(\<And>a b. x = (a, b) \<Longrightarrow> keeps g (f a b)) \<Longrightarrow> keeps g (case x of (a, b) \<Rightarrow> f a b)"
  by (cases x) simp

lemma ig_connect:
  assumes "ignores Q g" and "\<And>m. Q (Print m)"
  shows "keeps g (connect L r)"
proof -
  have pr: "\<And>m. keeps g (print m)"
    by (rule keeps_print) (simp add: ig_rules [OF assms(1)] assms)
  have up: "\<And>f. keeps g (update_obj r f)"
    by (rule keeps_update_obj) (simp add: ig_rules [OF assms(1)])
  have re: "\<And>op. keeps g (on_remote op)"
    by (rule keeps_on_remote) (simp add: ig_rules [OF assms(1)])
  have two: "\<And>host x y. keeps g (case (x, y) of
        (Some u, Some p) \<Rightarrow>
          seq (print ''Username and password specified'') (\<lambda>_.
          seq (on_remote (ftp_open L host (Some (u, p)))) (\<lambda>h.
          seq (update_obj r (\<lambda>d. d\<lparr>handle := Some h\<rparr>)) (\<lambda>_.
          print ''Logged in'')))
      | _ \<Rightarrow>
          seq (print ''No username or password'') (\<lambda>_.
          seq (on_remote (ftp_open L host None)) (\<lambda>h.
          seq (update_obj r (\<lambda>d. d\<lparr>handle := Some h\<rparr>)) (\<lambda>_.
          on_remote (ftp_login L h)))))"
    subgoal for host x y
      by (cases x; cases y; simp) (intro keeps_seq pr up re)+
    done
  show ?thesis
    unfolding connect_def
    by (intro keeps_seq keeps_obj keeps_case_option keeps_if keeps_ret keeps_raise pr two)
qed

lemma ig_lock:
  assumes "ignores Q g" and "\<And>m. Q (Print m)" and "\<And>p c. Q (Wrote p c)"
  shows "keeps g (lock L r)"
  unfolding lock_def
  by (intro keeps_intros ig_write_new_file [OF assms]; simp add: ig_rules [OF assms(1)] assms)

lemma ig_lock_loop:
  assumes "ignores Q g" and "\<And>m. Q (Print m)" and "\<And>p c. Q (Wrote p c)"
  shows "keeps g (lock_loop L rs acc)"
proof (induction rs arbitrary: acc)
  case Nil
  show ?case by (simp add: keeps_ret)
next
  case (Cons r rs)
  have pr: "\<And>m. keeps g (print m)"
    by (rule keeps_print) (simp add: ig_rules [OF assms(1)] assms)
  show ?case
    unfolding lock_loop.simps check_locked_def
    by (intro keeps_seq keeps_try keeps_if keeps_ret pr Cons.IH ig_connect [OF assms(1,2)]
        ig_check_file_exists [OF assms(1)] ig_lock [OF assms])
qed

lemma ig_lock_dirs:
  assumes "ignores Q g" and "\<And>m. Q (Print m)" and "\<And>p c. Q (Wrote p c)"
    and "\<And>p. Q (Removed p)"
  shows "keeps g (lock_dirs L cfg)"
  unfolding lock_dirs_def
  by (intro keeps_seq keeps_if keeps_ret keeps_list_dirs ig_lock_loop [OF assms(1-3)]
      ig_abort_dirs [OF assms(1,4,2)])

section \<open>The validation phase and the deploy phase on local targets\<close>

lemma check_valid_commit_local:
  "connection_mode (heap s r) = None \<Longrightarrow>
   check_valid_commit L G r s =
     (case fs s (commit_path s r) of
        None \<Rightarrow> (Inr False, s)
      | Some Dir \<Rightarrow> (Inl (Exn IOError []), s)
      | Some (File t) \<Rightarrow>
          (case repo_commit G (butlast t) of
             Inl e \<Rightarrow> (Inl e, s\<lparr>trace := trace s @ [Resolve (butlast t)]\<rparr>)
           | Inr x \<Rightarrow> (Inr (class_is_Commit x),
                       s\<lparr>heap := (heap s)(r := (heap s r)\<lparr>commit := x\<rparr>),
                         trace := trace s @ [Resolve (butlast t)]\<rparr>)))"
  by (simp add: check_valid_commit_def check_file_exists_local read_local seq_def ret_def
      emit_def lift_def update_obj_def os_path_exists_def fs_read_def
      split: option.splits node.splits sum.splits)

lemma check_valid_commit_local_facts:
  assumes "connection_mode (heap s r) = None" and "check_valid_commit L G r s = (v, s1)"
  shows "fs s1 = fs s" and "remote s1 = remote s"
    and "path (heap s1 x) = path (heap s x)"
    and "connection_mode (heap s1 x) = connection_mode (heap s x)"
  using assms(2) unfolding check_valid_commit_local [OF assms(1)]
  by (auto split: option.splits node.splits sum.splits)

lemma verdict_cong:
  assumes "connection_mode (heap s r) = None" and "connection_mode (heap s0 r) = None"
    and "path (heap s r) = path (heap s0 r)"
    and "fs s (commit_path s0 r) = fs s0 (commit_path s0 r)"
  shows "fst (check_valid_commit L G r s) = fst (check_valid_commit L G r s0)"
  unfolding check_valid_commit_local [OF assms(1)] check_valid_commit_local [OF assms(2)]
  using assms(3,4)
  by (simp split: option.splits node.splits sum.splits)

lemma missing_commit_local:
  assumes "\<forall>r \<in> set rs. connection_mode (heap s r) = None"
    and "missing_commit L G rs acc s = (res, s')"
  shows "fs s' = fs s \<and> remote s' = remote s
    \<and> (\<forall>x. path (heap s' x) = path (heap s x)
           \<and> connection_mode (heap s' x) = connection_mode (heap s x))
    \<and> (\<forall>m. res = Inr m \<longrightarrow> set acc \<subseteq> set m
           \<and> (\<forall>r \<in> set rs. fst (check_valid_commit L G r s) \<noteq> Inr True \<longrightarrow> r \<in> set m))"
  using assms
proof (induction rs arbitrary: acc s)
  case Nil
  then show ?case by (auto simp: ret_def)
next
  case (Cons r rs)
  from Cons.prems(1) have loc: "connection_mode (heap s r) = None" by simp
  from Cons.prems(2) have "seq (check_valid_commit L G r) (\<lambda>valid.
       if \<not> valid then missing_commit L G rs (acc @ [r])
       else missing_commit L G rs acc) s = (res, s')" by simp
  then show ?case
  proof (cases rule: seq_cases)
    case (raised e)
    from check_valid_commit_local_facts [OF loc raised(1)] raised(2)
    show ?thesis by simp
  next
    case (went_on valid s1)
    note facts = check_valid_commit_local_facts [OF loc went_on(1)]
    have locs1: "\<forall>r \<in> set rs. connection_mode (heap s1 r) = None"
      using Cons.prems(1) facts(4) by simp
    let ?acc1 = "if \<not> valid then acc @ [r] else acc"
    have run1: "missing_commit L G rs ?acc1 s1 = (res, s')"
      using went_on(2) by (simp split: if_splits)
    from Cons.IH [OF locs1 run1] have
      a: "fs s' = fs s1" and b: "remote s' = remote s1"
      and c: "\<forall>x. path (heap s' x) = path (heap s1 x)
           \<and> connection_mode (heap s' x) = connection_mode (heap s1 x)"
      and d: "\<forall>m. res = Inr m \<longrightarrow> set ?acc1 \<subseteq> set m
           \<and> (\<forall>r \<in> set rs. fst (check_valid_commit L G r s1) \<noteq> Inr True \<longrightarrow> r \<in> set m)"
      by blast+
    have same: "\<And>x. x \<in> set rs \<Longrightarrow>
        fst (check_valid_commit L G x s1) = fst (check_valid_commit L G x s)"
    proof -
      fix x assume x: "x \<in> set rs"
      show "fst (check_valid_commit L G x s1) = fst (check_valid_commit L G x s)"
        by (rule verdict_cong) (use x Cons.prems(1) locs1 facts in simp_all)
    qed
    have head: "fst (check_valid_commit L G r s) = Inr valid"
      using went_on(1) by simp
    have "\<forall>m. res = Inr m \<longrightarrow> set acc \<subseteq> set m
           \<and> (\<forall>x \<in> set (r # rs). fst (check_valid_commit L G x s) \<noteq> Inr True \<longrightarrow> x \<in> set m)"
    proof (intro allI impI)
      fix m assume m: "res = Inr m"
      with d have d1: "set ?acc1 \<subseteq> set m"
        and d2: "\<forall>r \<in> set rs. fst (check_valid_commit L G r s1) \<noteq> Inr True \<longrightarrow> r \<in> set m"
        by blast+
      have "set acc \<subseteq> set m" using d1 by (auto split: if_splits)
      moreover have "fst (check_valid_commit L G r s) \<noteq> Inr True \<longrightarrow> r \<in> set m"
        using head d1 by (auto split: if_splits)
      moreover have "\<forall>x \<in> set rs. fst (check_valid_commit L G x s) \<noteq> Inr True \<longrightarrow> x \<in> set m"
        using d2 same by simp
      ultimately show "set acc \<subseteq> set m
           \<and> (\<forall>x \<in> set (r # rs). fst (check_valid_commit L G x s) \<noteq> Inr True \<longrightarrow> x \<in> set m)"
        by simp
    qed
    then show ?thesis using a b c facts by simp
  qed
qed


lemma ig_check_valid_commit:
  assumes "ignores Q g" and "\<And>i. Q (Resolve i)"
  shows "keeps g (check_valid_commit L G r)"
  unfolding check_valid_commit_def read_root_dir_file_contents_def
  by (intro keeps_intros ig_check_file_exists [OF assms(1)];
      simp add: ig_rules [OF assms(1)] assms)

lemma ig_missing_commit:
  assumes "ignores Q g" and "\<And>i. Q (Resolve i)"
  shows "keeps g (missing_commit L G rs acc)"
proof (induction rs arbitrary: acc)
  case Nil
  show ?case by (simp add: keeps_ret)
next
  case (Cons r rs)
  show ?case
    unfolding missing_commit.simps
    by (intro keeps_seq keeps_if Cons.IH ig_check_valid_commit [OF assms])
qed

lemma ig_check_dirs_configured:
  assumes "ignores Q g" and "\<And>i. Q (Resolve i)" and "\<And>p. Q (Removed p)"
    and "\<And>m. Q (Print m)"
  shows "keeps g (check_dirs_configured L G cfg locked)"
  unfolding check_dirs_configured_def
  by (intro keeps_seq keeps_if keeps_ret keeps_list_dirs ig_missing_commit [OF assms(1,2)]
      ig_abort_dirs [OF assms(1,3,4)])

lemma ig_resolve_commit:
  assumes "ignores Q g" and "\<And>i. Q (Resolve i)" and "\<And>p. Q (Removed p)"
    and "\<And>m. Q (Print m)"
  shows "keeps g (resolve_commit L G commit_id locked)"
  unfolding resolve_commit_def
  by (intro keeps_seq keeps_if keeps_ret keeps_lift keeps_case_option keeps_emit
      ig_abort_dirs [OF assms(1,3,4)]; simp add: ig_rules [OF assms(1)] assms)

lemma keeps_heap_abort_dirs: "keeps heap (abort_dirs L rs msg)"
  unfolding abort_dirs_def by (intro keeps_intros keeps_heap_abort; simp)

lemma keeps_heap_resolve_commit: "keeps heap (resolve_commit L G commit_id locked)"
  unfolding resolve_commit_def
  by (intro keeps_intros keeps_heap_abort_dirs; simp)

lemma abort_dirs_local_result:
  assumes "\<forall>r \<in> set rs. connection_mode (heap s r) = None \<and> fs s (lock_path s r) \<noteq> Some Dir"
    and "abort_dirs L rs msg s = (res, s')"
  shows "res = Inr False" and "heap s' = heap s"
    and "fs s' = (\<lambda>p. if p \<in> lock_path s ` set rs then None else fs s p)"
  using abort_dirs_local [OF assms(1), of L msg] assms(2) by auto

text \<open>Resolving the desired commit while the locked targets are local.\<close>

lemma resolve_commit_local:
  assumes pre: "\<forall>r \<in> set locked. connection_mode (heap s1 r) = None
      \<and> fs s1 (lock_path s1 r) \<noteq> Some Dir"
    and rc: "resolve_commit L G commit_id locked s1 = (res, s2)"
  shows "heap s2 = heap s1"
    and "fs s2 = fs s1 \<or> fs s2 = (\<lambda>p. if p \<in> lock_path s1 ` set locked then None else fs s1 p)"
proof -
  show "heap s2 = heap s1" by (rule keepsD [OF keeps_heap_resolve_commit rc])
  from rc have "seq (case commit_id of
            Some i \<Rightarrow> seq (emit (Resolve i)) (\<lambda>_. lift (repo_commit G i))
          | None \<Rightarrow> lift (head_commit G)) (\<lambda>c.
     seq (if \<not> class_is_Commit c
          then abort_dirs L locked (''Invalid local commit for deploy'' @ [newline])
          else ret True) (\<lambda>_.
     ret c)) s1 = (res, s2)"
    by (simp only: resolve_commit_def)
  then show "fs s2 = fs s1
      \<or> fs s2 = (\<lambda>p. if p \<in> lock_path s1 ` set locked then None else fs s1 p)"
  proof (cases rule: seq_cases)
    case (raised e)
    then show ?thesis by (auto simp: prog_defs split: option.splits sum.splits)
  next
    case (went_on c s1a)
    from went_on(1) have h1: "heap s1a = heap s1" and f1: "fs s1a = fs s1"
      by (auto simp: prog_defs split: option.splits sum.splits)
    have pre1: "\<forall>r \<in> set locked. connection_mode (heap s1a r) = None
        \<and> fs s1a (lock_path s1a r) \<noteq> Some Dir"
      using pre by (simp add: h1 f1)
    show ?thesis
    proof (cases "class_is_Commit c")
      case True
      with went_on(2) have "s2 = s1a" by (simp add: seq_def ret_def)
      then show ?thesis using f1 by simp
    next
      case False
      with went_on(2) have "seq (abort_dirs L locked
          (''Invalid local commit for deploy'' @ [newline])) (\<lambda>_. ret c) s1a = (res, s2)"
        by simp
      then have "\<exists>v. abort_dirs L locked
          (''Invalid local commit for deploy'' @ [newline]) s1a = (v, s2)"
        by (cases rule: seq_cases) (auto simp: ret_def)
      then obtain v where ab: "abort_dirs L locked
          (''Invalid local commit for deploy'' @ [newline]) s1a = (v, s2)" by blast
      from abort_dirs_local_result(3) [OF pre1 ab]
      have "fs s2 = (\<lambda>p. if p \<in> lock_path s1 ` set locked then None else fs s1 p)"
        unfolding h1 f1 .
      then show ?thesis by (rule disjI2)
    qed
  qed
qed

text \<open>The validation phase when a target does not pass the check.\<close>

lemma check_dirs_configured_local:
  assumes locs: "\<forall>r \<in> set (cfg_dirs cfg). connection_mode (heap s r) = None"
    and pre: "\<forall>r \<in> set locked. connection_mode (heap s r) = None
      \<and> fs s (lock_path s r) \<noteq> Some Dir"
    and t: "r \<in> set (cfg_dirs cfg)" and bad: "fst (check_valid_commit L G r s) \<noteq> Inr True"
    and run: "check_dirs_configured L G cfg locked s = (Inr b, s')"
  shows "b = False"
    and "fs s' = (\<lambda>p. if p \<in> lock_path s ` set locked then None else fs s p)"
proof -
  from run obtain m sm where mc: "missing_commit L G (cfg_dirs cfg) [] s = (Inr m, sm)"
    and rest: "(if length m > 0 then
         seq (list_dirs m) (\<lambda>listed.
         abort_dirs L locked
           (''Invalid / missing commit information for the following directories:'' @ [newline]
            @ listed @ ''Aborting.''))
       else ret True) sm = (Inr b, s')"
    unfolding check_dirs_configured_def by (rule seq_InrE)
  from missing_commit_local [OF locs mc] t bad have
    f: "fs sm = fs s" and lay: "\<And>x. path (heap sm x) = path (heap s x)"
      "\<And>x. connection_mode (heap sm x) = connection_mode (heap s x)"
    and rm: "r \<in> set m"
    by auto
  from rm have "length m > 0" by (cases m) auto
  with rest obtain msg where ab: "abort_dirs L locked msg sm = (Inr b, s')"
    by (auto simp: seq_def list_dirs_def)
  have pre': "\<forall>r \<in> set locked. connection_mode (heap sm r) = None
      \<and> fs sm (lock_path sm r) \<noteq> Some Dir"
    using pre by (simp add: f lay)
  from abort_dirs_local_result(1) [OF pre' ab] show "b = False" by simp
  from abort_dirs_local_result(3) [OF pre' ab]
  show "fs s' = (\<lambda>p. if p \<in> lock_path s ` set locked then None else fs s p)"
    unfolding f lay .
qed


text \<open>When the repository raises nothing, the phases on local targets return.\<close>

lemma seq_Inr: "m s = (Inr x, s1) \<Longrightarrow> seq m f s = f x s1"
  by (simp add: seq_def)

lemma missing_commit_returns:
  assumes "\<forall>r \<in> set rs. connection_mode (heap s r) = None"
    and tot: "\<forall>i. \<exists>x. repo_commit G i = Inr x"
    and "\<forall>r \<in> set rs. fs s (commit_path s r) \<noteq> Some Dir"
  shows "\<exists>m s'. missing_commit L G rs acc s = (Inr m, s')"
  using assms(1,3)
proof (induction rs arbitrary: acc s)
  case Nil
  show ?case by (simp add: ret_def)
next
  case (Cons r rs)
  from Cons.prems have loc: "connection_mode (heap s r) = None"
    and nd: "fs s (commit_path s r) \<noteq> Some Dir" by simp_all
  have "\<exists>v s1. check_valid_commit L G r s = (Inr v, s1)"
  proof (cases "fs s (commit_path s r)")
    case None
    then show ?thesis by (auto simp: check_valid_commit_local [OF loc])
  next
    case (Some n)
    with nd obtain t where t: "fs s (commit_path s r) = Some (File t)" by (cases n) auto
    from tot obtain x where "repo_commit G (butlast t) = Inr x" by blast
    with t show ?thesis by (simp add: check_valid_commit_local [OF loc])
  qed
  then obtain v s1 where cv: "check_valid_commit L G r s = (Inr v, s1)" by blast
  note facts = check_valid_commit_local_facts [OF loc cv]
  have a: "\<forall>r \<in> set rs. connection_mode (heap s1 r) = None"
    using Cons.prems(1) facts(4) by simp
  have b: "\<forall>r \<in> set rs. fs s1 (commit_path s1 r) \<noteq> Some Dir"
    using Cons.prems(2) facts(1,3) by simp
  from Cons.IH [OF a b] obtain m s' where
    "missing_commit L G rs (if \<not> v then acc @ [r] else acc) s1 = (Inr m, s')"
    by blast
  with cv show ?case by (auto simp: seq_def split: if_splits)
qed

lemma check_dirs_configured_returns:
  assumes locs: "\<forall>r \<in> set (cfg_dirs cfg). connection_mode (heap s r) = None"
    and pre: "\<forall>r \<in> set locked. connection_mode (heap s r) = None
      \<and> fs s (lock_path s r) \<noteq> Some Dir"
    and tot: "\<forall>i. \<exists>x. repo_commit G i = Inr x"
    and nd: "\<forall>r \<in> set (cfg_dirs cfg). fs s (commit_path s r) \<noteq> Some Dir"
  shows "\<exists>b s'. check_dirs_configured L G cfg locked s = (Inr b, s')"
proof -
  from missing_commit_returns [OF locs tot nd, of L "[]"] obtain m sm where
    mc: "missing_commit L G (cfg_dirs cfg) [] s = (Inr m, sm)" by blast
  from missing_commit_local [OF locs mc] have
    f: "fs sm = fs s" and lay: "\<And>x. path (heap sm x) = path (heap s x)"
      "\<And>x. connection_mode (heap sm x) = connection_mode (heap s x)"
    by auto
  have pre': "\<forall>r \<in> set locked. connection_mode (heap sm r) = None
      \<and> fs sm (lock_path sm r) \<noteq> Some Dir"
    using pre by (simp add: f lay)
  have ld: "list_dirs m sm = (Inr (list_dirs_from (heap sm) m), sm)"
    by (simp add: list_dirs_def)
  note s1 = seq_Inr [of "missing_commit L G (cfg_dirs cfg) []" s m sm, OF mc]
  note s2 = seq_Inr [of "list_dirs m" sm "list_dirs_from (heap sm) m" sm, OF ld]
  show ?thesis
  proof (cases "length m > 0")
    case True
    let ?msg = "''Invalid / missing commit information for the following directories:''
        @ [newline] @ list_dirs_from (heap sm) m @ ''Aborting.''"
    from abort_dirs_local [OF pre', of L ?msg]
    obtain s' where ab: "abort_dirs L locked ?msg sm = (Inr False, s')"
      by blast
    have eq: "check_dirs_configured L G cfg locked s = abort_dirs L locked ?msg sm"
      unfolding check_dirs_configured_def
      by (simp only: s1 True if_True s2)
    show ?thesis unfolding eq ab by blast
  next
    case False
    have "check_dirs_configured L G cfg locked s = ret True sm"
      unfolding check_dirs_configured_def
      by (simp only: s1 False if_False)
    then show ?thesis by (auto simp: ret_def)
  qed
qed

lemma resolve_commit_returns:
  assumes pre: "\<forall>r \<in> set locked. connection_mode (heap s1 r) = None
      \<and> fs s1 (lock_path s1 r) \<noteq> Some Dir"
    and tot: "\<forall>i. \<exists>x. repo_commit G i = Inr x"
    and hd: "\<exists>x. head_commit G = Inr x"
  shows "\<exists>c s2. resolve_commit L G commit_id locked s1 = (Inr c, s2)"
proof -
  have "\<exists>c s1a. (case commit_id of
            Some i \<Rightarrow> seq (emit (Resolve i)) (\<lambda>_. lift (repo_commit G i))
          | None \<Rightarrow> lift (head_commit G)) s1 = (Inr c, s1a)
        \<and> heap s1a = heap s1 \<and> fs s1a = fs s1"
  proof (cases commit_id)
    case None
    with hd show ?thesis by (auto simp: lift_def)
  next
    case (Some i)
    from tot obtain x where "repo_commit G i = Inr x" by blast
    with Some show ?thesis by (simp add: seq_def emit_def lift_def)
  qed
  then obtain c s1a where first: "(case commit_id of
            Some i \<Rightarrow> seq (emit (Resolve i)) (\<lambda>_. lift (repo_commit G i))
          | None \<Rightarrow> lift (head_commit G)) s1 = (Inr c, s1a)"
    and h: "heap s1a = heap s1" and f: "fs s1a = fs s1"
    by blast
  have pre1: "\<forall>r \<in> set locked. connection_mode (heap s1a r) = None
        \<and> fs s1a (lock_path s1a r) \<noteq> Some Dir"
    using pre by (simp add: h f)
  from abort_dirs_local [OF pre1, of L "''Invalid local commit for deploy'' @ [newline]"]
  obtain s2 where "abort_dirs L locked (''Invalid local commit for deploy'' @ [newline]) s1a
      = (Inr False, s2)"
    by blast
  with first show ?thesis
    unfolding resolve_commit_def by (subst seq_def) (simp add: seq_def ret_def)
qed


text \<open>The run without the flag \<^verbatim>\<open>h\<close> when a target does not pass the commit check.\<close>

lemma validation_gate:
  assumes nf: "\<forall>r \<in> set (cfg_dirs cfg). connection_mode (heap s r) \<noteq> Some ''FTP''"
    and nh: "''h'' \<notin> set flags"
    and t: "r \<in> set (cfg_dirs cfg)"
    and inv: "\<forall>G. Repo (cfg_path cfg) = Inr G \<longrightarrow> fst (check_valid_commit L G r s) \<noteq> Inr True"
    and ig: "ignores no_deploy_event g"
    and X: "run L Repo flags commit_id cfg s = (res, s')"
  shows "g s' = g s \<and> (\<forall>out. res = Inr out \<longrightarrow> out = Exited \<and> fs s' = fs s)
    \<and> ((\<exists>G. Repo (cfg_path cfg) = Inr G \<and> (\<forall>i. \<exists>x. repo_commit G i = Inr x)
              \<and> (\<exists>x. head_commit G = Inr x))
         \<and> (\<forall>r \<in> set (cfg_dirs cfg). fs s (commit_path s r) \<noteq> Some Dir)
        \<longrightarrow> res = Inr Exited)"
proof -
  from lock_dirs_not_ftp [OF nf, of L] obtain lres s1 where
    ld: "lock_dirs L cfg s = (Inr lres, s1)" and h1: "heap s1 = heap s"
    and c: "case lres of None \<Rightarrow> fs s1 = fs s
        | Some locked \<Rightarrow> locked = cfg_dirs cfg
            \<and> (\<forall>r \<in> set locked. connection_mode (heap s r) = None
                  \<and> fs s (lock_path s r) = None)
            \<and> fs s1 = (\<lambda>p. if p \<in> lock_path s ` set locked then Some (File ''locked'')
                              else fs s p)"
    by blast
  have g1: "g s1 = g s"
    by (rule keepsD [OF ig_lock_dirs [OF ig] ld]) simp_all
  show ?thesis
  proof (cases lres)
    case None
    with X ld c show ?thesis using g1 by (auto simp: run_def seq_def ret_def)
  next
    case (Some locked)
    with c have lc: "locked = cfg_dirs cfg"
      and n: "\<forall>r \<in> set locked. connection_mode (heap s r) = None \<and> fs s (lock_path s r) = None"
      and f: "fs s1 = (\<lambda>p. if p \<in> lock_path s ` set locked then Some (File ''locked'')
                              else fs s p)"
      by simp_all
    show ?thesis
    proof (cases "locked = []")
      case True
      then have "fs s1 = fs s" using f by simp
      moreover have "res = Inr Exited \<and> s' = s1"
        using X ld Some True by (auto simp: run_def seq_def ret_def)
      ultimately show ?thesis using g1 by simp
    next
      case False
      have tail: "seq (lift (Repo (cfg_path cfg))) (\<lambda>G.
             seq (resolve_commit L G commit_id locked) (\<lambda>c.
             seq (check_dirs_configured L G cfg locked) (\<lambda>configured.
               if \<not> configured then ret Exited
               else
                 seq (deploy_all L G c cfg) (\<lambda>_.
                 seq (print ''Done'') (\<lambda>_.
                 ret Done))))) s1 = (res, s')"
        using X ld Some False nh by (simp add: run_def seq_def)
      then show ?thesis
      proof (cases rule: seq_cases)
        case (raised e)
        then have "s' = s1" and "Repo (cfg_path cfg) = Inl e" by (auto simp: lift_def)
        with raised g1 show ?thesis by simp
      next
        case (went_on G s1')
        then have G: "Repo (cfg_path cfg) = Inr G" and s1': "s1' = s1"
          by (auto simp: lift_def)
        have pre1: "\<forall>r \<in> set locked. connection_mode (heap s1 r) = None
              \<and> fs s1 (lock_path s1 r) \<noteq> Some Dir"
          using n by (simp add: h1 f)
        from went_on(2) [unfolded s1'] show ?thesis
        proof (cases rule: seq_cases)
          case (raised e)
          have "\<not> ((\<forall>i. \<exists>x. repo_commit G i = Inr x) \<and> (\<exists>x. head_commit G = Inr x))"
          proof
            assume "(\<forall>i. \<exists>x. repo_commit G i = Inr x) \<and> (\<exists>x. head_commit G = Inr x)"
            then have "\<exists>c s2. resolve_commit L G commit_id locked s1 = (Inr c, s2)"
              by (intro resolve_commit_returns [OF pre1]) simp_all
            with raised(1) show False by simp
          qed
          with G have "\<not> (\<exists>G. Repo (cfg_path cfg) = Inr G \<and> (\<forall>i. \<exists>x. repo_commit G i = Inr x)
              \<and> (\<exists>x. head_commit G = Inr x))"
            by auto
          with keepsD [OF ig_resolve_commit [OF ig] raised(1)] raised(2) g1
          show ?thesis by simp
        next
          case (went_on c s2)
          have g2: "g s2 = g s1"
            by (rule keepsD [OF ig_resolve_commit [OF ig] went_on(1)]) simp_all
          note rc = resolve_commit_local [OF pre1 went_on(1)]
          have h2: "heap s2 = heap s" using rc(1) h1 by simp
          have f2: "\<And>p. fs s2 p = (if p \<in> lock_path s ` set locked
                then fs s2 p else fs s p)"
            using rc(2) by (auto simp: f h1)
          have f2l: "\<And>x. x \<in> set locked \<Longrightarrow> fs s2 (lock_path s x) \<noteq> Some Dir"
            using rc(2) by (auto simp: f h1)
          have locs2: "\<forall>r \<in> set (cfg_dirs cfg). connection_mode (heap s2 r) = None"
            using n lc by (simp add: h2)
          have pre2: "\<forall>r \<in> set locked. connection_mode (heap s2 r) = None
              \<and> fs s2 (lock_path s2 r) \<noteq> Some Dir"
            using n f2l by (simp add: h2)
          have nolock: "\<And>y. commit_path s y \<notin> lock_path s ` set locked"
          proof
            fix y assume "commit_path s y \<in> lock_path s ` set locked"
            then obtain x where "commit_path s y = lock_path s x" by blast
            then show False
              using lock_path_neq_commit_path [of "path (heap s x)" "path (heap s y)"] by simp
          qed
          have marker: "\<And>y. fs s2 (commit_path s y) = fs s (commit_path s y)"
          proof -
            fix y
            show "fs s2 (commit_path s y) = fs s (commit_path s y)"
              using f2 [of "commit_path s y"] nolock [of y] by simp
          qed
          from marker [of r] have "fst (check_valid_commit L G r s2) = fst (check_valid_commit L G r s)"
            using n lc t by (intro verdict_cong) (simp_all add: h2)
          with inv G have bad: "fst (check_valid_commit L G r s2) \<noteq> Inr True" by simp
          from went_on(2) show ?thesis
          proof (cases rule: seq_cases)
            case (raised e)
            have "\<not> ((\<forall>i. \<exists>x. repo_commit G i = Inr x)
                \<and> (\<forall>r \<in> set (cfg_dirs cfg). fs s (commit_path s r) \<noteq> Some Dir))"
            proof
              assume a: "(\<forall>i. \<exists>x. repo_commit G i = Inr x)
                \<and> (\<forall>r \<in> set (cfg_dirs cfg). fs s (commit_path s r) \<noteq> Some Dir)"
              then have "\<forall>r \<in> set (cfg_dirs cfg). fs s2 (commit_path s2 r) \<noteq> Some Dir"
                using marker by (simp add: h2)
              with a have "\<exists>b s'. check_dirs_configured L G cfg locked s2 = (Inr b, s')"
                by (intro check_dirs_configured_returns [OF locs2 pre2]) simp_all
              with raised(1) show False by simp
            qed
            with G have "\<not> ((\<exists>G. Repo (cfg_path cfg) = Inr G
                  \<and> (\<forall>i. \<exists>x. repo_commit G i = Inr x) \<and> (\<exists>x. head_commit G = Inr x))
                \<and> (\<forall>r \<in> set (cfg_dirs cfg). fs s (commit_path s r) \<noteq> Some Dir))"
              by auto
            with keepsD [OF ig_check_dirs_configured [OF ig] raised(1)] raised(2) g1 g2
            show ?thesis by simp
          next
            case (went_on b s3)
            have g3: "g s3 = g s2"
              by (rule keepsD [OF ig_check_dirs_configured [OF ig] went_on(1)]) simp_all
            note cd = check_dirs_configured_local [OF locs2 pre2 t bad went_on(1)]
            from went_on(2) cd(1) have r: "res = Inr Exited" and s3: "s' = s3"
              by (simp_all add: ret_def)
            have "fs s3 = fs s"
            proof (rule ext)
              fix p
              show "fs s3 p = fs s p"
                using f2 [of p] n by (auto simp: cd(2) h2)
            qed
            with r s3 g1 g2 g3 show ?thesis by simp
          qed
        qed
      qed
    qed
  qed
qed




lemma ig_deploy_item:
  assumes "ignores no_resolve_event g"
  shows "keeps g (deploy_item L r cfg item)"
  unfolding deploy_item_def
  by (intro keeps_if ig_delete_file [OF assms] ig_rename_file [OF assms]
      ig_copy_file [OF assms]) simp_all

lemma ig_deploy:
  assumes "ignores no_resolve_event g"
  shows "keeps g (deploy L G r c cfg)"
  unfolding deploy_def deploy_diff_def deploy_tree_def
  by (intro keeps_seq keeps_obj keeps_emit keeps_if keeps_lift keeps_for_each keeps_ret
      ig_deploy_item [OF assms] ig_copy_file [OF assms] ig_write_new_file [OF assms]
      ig_delete_file [OF assms]; simp add: ig_rules [OF assms])

lemma ig_deploy_all:
  assumes "ignores no_resolve_event g"
  shows "keeps g (deploy_all L G c cfg)"
  unfolding deploy_all_def
  by (intro keeps_for_each keeps_seq keeps_if keeps_obj keeps_ret keeps_print
      ig_deploy [OF assms]; simp add: ig_rules [OF assms])

lemma keeps_heap_deploy_all: "keeps heap (deploy_all L G c cfg)"
  unfolding deploy_all_def
  by (intro keeps_for_each keeps_seq keeps_if keeps_obj keeps_ret keeps_print
      keeps_heap_deploy; simp)

lemma ignores_resolved_or_given:
  "ignores no_resolve_event (\<lambda>s. set (resolved (trace s)) \<union> set_option commit_id)"
  unfolding ignores_def
  by (auto simp: resolved_append elim: no_resolve_event.elims)

lemma hard_deploy_resolves_nothing_else:
  assumes h: "''h'' \<in> set flags"
  shows "keeps (\<lambda>s. set (resolved (trace s)) \<union> set_option commit_id)
           (run L Repo flags commit_id cfg)"
proof -
  let ?g = "\<lambda>s. set (resolved (trace s)) \<union> set_option commit_id"
  note ig = ignores_resolved_or_given [of commit_id]
  have rc: "\<And>G locked. keeps ?g (resolve_commit L G commit_id locked)"
    unfolding resolve_commit_def
    by (intro keeps_seq keeps_if keeps_ret keeps_lift keeps_case_option keeps_emit
        ig_abort_dirs [OF ig]; simp add: resolved_append)
  show ?thesis
    unfolding run_def
    by (intro keeps_seq keeps_case_option keeps_if keeps_ret keeps_lift keeps_print rc
        ig_lock_dirs [OF ig] ig_deploy_all [OF ig]; simp add: h resolved_append)
qed

lemma hard_deploy_keeps_heap:
  assumes nf: "\<forall>r \<in> set (cfg_dirs cfg). connection_mode (heap s r) \<noteq> Some ''FTP''"
    and h: "''h'' \<in> set flags"
    and X: "run L Repo flags commit_id cfg s = (res, s')"
  shows "heap s' = heap s"
proof -
  from lock_dirs_not_ftp [OF nf, of L] obtain lres s1 where
    ld: "lock_dirs L cfg s = (Inr lres, s1)" and h1: "heap s1 = heap s"
    by blast
  let ?tail = "case lres of
         None \<Rightarrow> ret Exited
       | Some locked \<Rightarrow>
           if locked = [] then ret Exited
           else
             seq (lift (Repo (cfg_path cfg))) (\<lambda>G.
             seq (resolve_commit L G commit_id locked) (\<lambda>c.
             seq (if ''h'' \<notin> set flags
                  then check_dirs_configured L G cfg locked
                  else ret True) (\<lambda>configured.
               if \<not> configured then ret Exited
               else
                 seq (deploy_all L G c cfg) (\<lambda>_.
                 seq (print ''Done'') (\<lambda>_.
                 ret Done)))))"
  have k: "keeps heap ?tail"
    by (intro keeps_seq keeps_case_option keeps_if keeps_ret keeps_lift keeps_print
        keeps_heap_resolve_commit keeps_heap_deploy_all; simp add: h)
  have "?tail s1 = (res, s')"
    using X ld by (simp add: run_def seq_def)
  from keepsD [OF k this] h1 show ?thesis by simp
qed






text \<open>Without FTP targets, a run that finds a target locked exits and leaves the file
  system as it found it.\<close>

lemma lock_gate_local:
  assumes nf: "\<forall>r \<in> set (cfg_dirs cfg). connection_mode (heap s r) \<noteq> Some ''FTP''"
    and t: "r \<in> set (cfg_dirs cfg)" and loc: "connection_mode (heap s r) = None"
    and lk: "os_path_exists (path_join (path (heap s r)) LOCK_FILE) (fs s)"
  shows "\<exists>s'. run L Repo flags commit_id cfg s = (Inr Exited, s')
      \<and> fs s' = fs s \<and> heap s' = heap s
      \<and> deploys (trace s') = deploys (trace s) \<and> copied (trace s') = copied (trace s)"
proof -
  from lock_dirs_not_ftp [OF nf, of L] obtain res s1 where
    ld: "lock_dirs L cfg s = (Inr res, s1)" and h: "heap s1 = heap s"
    and c: "case res of None \<Rightarrow> fs s1 = fs s
        | Some locked \<Rightarrow> locked = cfg_dirs cfg
            \<and> (\<forall>r \<in> set locked. connection_mode (heap s r) = None
                  \<and> fs s (lock_path s r) = None)
            \<and> fs s1 = (\<lambda>p. if p \<in> lock_path s ` set locked then Some (File ''locked'')
                              else fs s p)"
    and e: "(\<exists>r \<in> set (cfg_dirs cfg). connection_mode (heap s r) = None
            \<and> fs s (lock_path s r) \<noteq> None) \<longrightarrow> res = None"
    by blast
  have "res = None" using e t loc lk by (auto simp: os_path_exists_def)
  then have r: "run L Repo flags commit_id cfg s = (Inr Exited, s1)" and f: "fs s1 = fs s"
    using ld c by (simp_all add: run_def seq_def ret_def)
  have d: "deploys (trace s1) = deploys (trace s)"
    by (rule keepsD [OF ig_lock_dirs [OF ignores_deploys] ld]) simp_all
  have k: "copied (trace s1) = copied (trace s)"
    by (rule keepsD [OF ig_lock_dirs [OF ignores_copied] ld]) simp_all
  from r f h d k show ?thesis by blast
qed

section \<open>The deploy phase as a loop\<close>

lemma for_each_append:
  "for_each (xs @ ys) body = seq (for_each xs body) (\<lambda>_. for_each ys body)"
  by (induction xs) (auto simp: seq_def ret_def fun_eq_iff split: prod.splits sum.splits)

lemma deploy_cfg_dirs: "deploy L G r c (cfg\<lparr>cfg_dirs := ds\<rparr>) = deploy L G r c cfg"
  unfolding deploy_def deploy_diff_def deploy_tree_def deploy_item_def
  by (simp cong: if_cong)

lemma deploy_all_cfg_dirs:
  "deploy_all L G c (cfg\<lparr>cfg_dirs := ds\<rparr>) =
     for_each ds (\<lambda>r.
       seq (deploy L G r c cfg) (\<lambda>ok.
         if ok then
           seq (obj r) (\<lambda>d. print (''Deployed successfully to  '' @ path d))
         else ret ()))"
  by (simp add: deploy_all_def deploy_cfg_dirs)

section \<open>The files that a deploy of the whole tree writes\<close>











section \<open>Claims\<close>

text \<open>
  C4. The claim: writing the commit marker with contents \<open>s\<close> and reading it back returns
  \<open>s\<close>, because the read strips one trailing newline and only a newline. The script writes
  the identifier with no newline after it and the read drops the last character whatever
  it is: the identifier \<^verbatim>\<open>8c1f0e2a\<close> written to the marker of the local target \<^verbatim>\<open>site\<close>
  is read back as \<^verbatim>\<open>8c1f0e2\<close>.
\<close>

theorem C4_marker_roundtrip_loses_last_character:
  "fst (seq (write_new_file no_ftp 0 COMMIT_FILE ''8c1f0e2a'')
          (\<lambda>_. read_root_dir_file_contents no_ftp 0 COMMIT_FILE) site_state)
   = Inr ''8c1f0e2''"
  by (simp add: site_state_def Directory_init_def write_new_file_local read_local seq_def
      fs_write_def fs_read_def parent_exists_def dirname_def upto_last_slash_def path_join_def
      slash_def COMMIT_FILE_def split: sum.splits)

text \<open>
  C6. The claim: for every target the commit-validity check returns a boolean and never
  raises; it returns false for an absent or unresolvable marker and true, caching the
  commit, for a valid one. On an FTP target whose root holds a commit marker the check
  raises AttributeError: reading the marker evaluates \<^verbatim>\<open>self._read_to_buffer\<close>, and the
  constructor has defined \<^verbatim>\<open>self.read_to_buffer\<close>. The marker here names a commit that the
  repository resolves.
\<close>

theorem C6_check_valid_commit_raises_on_ftp_target:
  "fst (seq (connect flat_ftp 0) (\<lambda>_. check_valid_commit flat_ftp any_git 0) www_state)
   = Inl (Exn AttributeError ''_read_to_buffer'')"
  by (simp add: www_state_def flat_ftp_def any_git_def Directory_init_def upper_char_def
      connect_def check_valid_commit_def check_file_exists_def read_root_dir_file_contents_def
      prog_defs COMMIT_FILE_def)

text \<open>
  C8. The claim: deleting the lock marker when it is absent is a no-op, and deleting any
  other file that does not exist is an error. On a local target that holds its lock
  marker, deleting the missing file \<^verbatim>\<open>old.txt\<close> returns normally and changes nothing.
\<close>

theorem C8_local_delete_of_missing_file_is_no_error:
  "delete_file no_ftp 0 ''old.txt'' locked_site_state = (Inr (), locked_site_state)"
  by (simp add: delete_file_local locked_site_state_def Directory_init_def os_path_exists_def
     path_join_def slash_def LOCK_FILE_def)

text \<open>
  C8, as amended. On the local transport \<open>delete_file\<close> removes a file only if it exists:
  deleting a missing file, the lock marker or any other, is a no-op and not an error, and
  an existing file of a locked target is removed. On the FTP transport the delete command
  is sent without a test for existence, so a refusal by the server is an error of
  \<open>delete_file\<close>.
\<close>

theorem C8_delete_semantics:
  "(connection_mode (heap s r) = None
      \<longrightarrow> fs s (path_join (path (heap s r)) fn) = None
      \<longrightarrow> delete_file L r fn s = (Inr (), s))
   \<and> (connection_mode (heap s r) = None
      \<longrightarrow> os_path_exists (path_join (path (heap s r)) LOCK_FILE) (fs s)
      \<longrightarrow> fs s (path_join (path (heap s r)) fn) = Some (File c)
      \<longrightarrow> delete_file L r fn s =
            (Inr (), s\<lparr>fs := (fs s)(path_join (path (heap s r)) fn := None),
                       trace := trace s @ [Removed (path_join (path (heap s r)) fn)]\<rparr>))
   \<and> (connection_mode (heap s r) = Some ''FTP''
      \<longrightarrow> check_locked L r s = (Inr True, s1)
      \<longrightarrow> handle (heap s1 r) = Some h
      \<longrightarrow> ftp_cwd L h (path_join (path (heap s1 r)) (dirname fn)) (remote s1) = (Inr (), r2)
      \<longrightarrow> ftp_delete L h (basename fn) r2 = (Inl e, r3)
      \<longrightarrow> delete_file L r fn s = (Inl e, s1\<lparr>remote := r3\<rparr>))"
proof (intro conjI impI)
  assume "connection_mode (heap s r) = None" "fs s (path_join (path (heap s r)) fn) = None"
  then show "delete_file L r fn s = (Inr (), s)"
    by (simp add: delete_file_local)
next
  assume "connection_mode (heap s r) = None"
    "os_path_exists (path_join (path (heap s r)) LOCK_FILE) (fs s)"
    "fs s (path_join (path (heap s r)) fn) = Some (File c)"
  then show "delete_file L r fn s =
            (Inr (), s\<lparr>fs := (fs s)(path_join (path (heap s r)) fn := None),
                       trace := trace s @ [Removed (path_join (path (heap s r)) fn)]\<rparr>)"
    by (simp add: delete_file_local)
next
  assume m: "connection_mode (heap s r) = Some ''FTP''"
    and l: "check_locked L r s = (Inr True, s1)"
    and h: "handle (heap s1 r) = Some h"
    and c: "ftp_cwd L h (path_join (path (heap s1 r)) (dirname fn)) (remote s1) = (Inr (), r2)"
    and d: "ftp_delete L h (basename fn) r2 = (Inl e, r3)"
  have hp: "heap s1 = heap s"
    using l m by (auto simp: check_locked_def check_file_exists_def prog_defs
        split: option.splits sum.splits prod.splits if_splits)
  show "delete_file L r fn s = (Inl e, s1\<lparr>remote := r3\<rparr>)"
    using l m h c d hp by (simp add: delete_file_def prog_defs)
qed

theorem C8_delete_semantics_witness:
  "connection_mode (heap locked_site_state 0) = None
   \<and> fs locked_site_state (path_join (path (heap locked_site_state 0)) ''old.txt'') = None
   \<and> delete_file no_ftp 0 ''old.txt'' locked_site_state = (Inr (), locked_site_state)
   \<and> connection_mode (heap www_connected 0) = Some ''FTP''
   \<and> check_locked flat_ftp 0 www_connected = (Inr True, www_connected)
   \<and> fst (delete_file flat_ftp 0 ''old.txt'' www_connected) = Inl (Exn Exception ''550'')"
  using C8_delete_semantics [of locked_site_state 0 "''old.txt''" no_ftp undefined undefined
      undefined undefined undefined undefined]
    C8_delete_semantics [of www_connected 0 "''old.txt''" flat_ftp undefined www_connected "()"
      "remote www_connected" "Exn Exception ''550''" "remote www_connected"]
  by (simp add: locked_site_state_def www_connected_def www_state_def flat_ftp_def
      Directory_init_def upper_char_def check_locked_def check_file_exists_def prog_defs
      path_join_def slash_def LOCK_FILE_def dirname_def upto_last_slash_def basename_def)

text \<open>
  C10. Every deletion is gated on the lock marker: when \<open>check_locked\<close> answers false,
  \<open>delete_file\<close> does nothing more than that check, whatever the transport and the file
  name, and neither does the deploy of a diff entry recorded as deleted: a file is
  removed only while the target is locked. On the local transport an absent lock marker leaves the state as it is, and
  deleting a file that does not exist never raises.
\<close>

theorem C10_deletion_gated_on_lock:
  "(check_locked L r s = (Inr False, s1) \<longrightarrow> delete_file L r fn s = (Inr (), s1))
   \<and> (check_locked L r s = (Inr False, s1) \<longrightarrow> deleted_file item
        \<longrightarrow> deploy_item L r cfg item s = (Inr (), s1))
   \<and> (connection_mode (heap s r) = None
        \<longrightarrow> \<not> os_path_exists (path_join (path (heap s r)) LOCK_FILE) (fs s)
        \<longrightarrow> delete_file L r fn s = (Inr (), s))
   \<and> (connection_mode (heap s r) = None
        \<longrightarrow> \<not> os_path_exists (path_join (path (heap s r)) fn) (fs s)
        \<longrightarrow> delete_file L r fn s = (Inr (), s))"
  by (auto simp: delete_file_unlocked delete_file_local os_path_exists_def deploy_item_def)

theorem C10_deletion_gated_on_lock_witness:
  "check_locked no_ftp 0 site_state = (Inr False, site_state)
   \<and> connection_mode (heap site_state 0) = None
   \<and> \<not> os_path_exists (path_join (path (heap site_state 0)) LOCK_FILE) (fs site_state)
   \<and> \<not> os_path_exists (path_join (path (heap site_state 0)) ''old.txt'') (fs site_state)
   \<and> delete_file no_ftp 0 ''old.txt'' site_state = (Inr (), site_state)
   \<and> deploy_item no_ftp 0 site_cfg
        \<lparr>deleted_file = True, a_path = ''old.txt'', rename_from = None, rename_to = None\<rparr>
        site_state = (Inr (), site_state)"
  using C10_deletion_gated_on_lock [of no_ftp 0 site_state site_state "''old.txt''"
      "\<lparr>deleted_file = True, a_path = ''old.txt'', rename_from = None, rename_to = None\<rparr>"
      site_cfg]
  by (simp add: site_state_def Directory_init_def check_locked_def check_file_exists_local
      os_path_exists_def path_join_def slash_def LOCK_FILE_def)




text \<open>
  C7. The claim: a deploy failure on one target does not keep the deploy from being
  attempted on the other locked targets, and every outcome is recorded in a report. With
  two locked local targets, the copy into \<^verbatim>\<open>siteA\<close> raises IOError (a regular file is where
  a directory is needed); the exception ends the run, \<open>deploy\<close> is never called on
  \<^verbatim>\<open>siteB\<close>, which stays locked.
\<close>

theorem C7_no_failure_isolation:
  "fst (run no_ftp (\<lambda>p. Inr tree_git) [''h''] None two_cfg two_sites)
     = Inl (Exn IOError [])
   \<and> deploys (trace (snd (run no_ftp (\<lambda>p. Inr tree_git) [''h''] None two_cfg two_sites)))
     = [''siteA'']
   \<and> fs (snd (run no_ftp (\<lambda>p. Inr tree_git) [''h''] None two_cfg two_sites)) ''siteB/.git_lock''
     = Some (File ''locked'')"
  by (simp add: two_sites_def two_cfg_def tree_git_def eval_defs)

text \<open>
  C7, as amended. The deploy phase calls \<open>deploy\<close> on the targets in the order of the
  configuration and catches nothing. When \<open>deploy\<close> has returned on the targets before
  \<open>r\<close> and raises on \<open>r\<close>, the phase ends with that exception in the state in which
  the failing call left things, and so does the run: \<open>deploy\<close> has been called on the
  targets up to \<open>r\<close> and on no later one, and nothing is written, removed, unlocked or
  printed after the failure.
\<close>

theorem C7_deploy_phase_stops_at_first_failure:
  assumes split: "cfg_dirs cfg = ds1 @ r # ds2"
    and before: "deploy_all L G c (cfg\<lparr>cfg_dirs := ds1\<rparr>) s = (Inr (), s1)"
    and fail: "deploy L G r c cfg s1 = (Inl e, s2)"
  shows "deploy_all L G c cfg s = (Inl e, s2)
    \<and> deploys (trace s2) = deploys (trace s) @ map (\<lambda>x. path (heap s x)) (ds1 @ [r])
    \<and> (lock_dirs L cfg s0 = (Inr (Some locked), sa) \<longrightarrow> locked \<noteq> []
        \<longrightarrow> Repo (cfg_path cfg) = Inr G
        \<longrightarrow> resolve_commit L G commit_id locked sa = (Inr c, sb)
        \<longrightarrow> (if ''h'' \<notin> set flags then check_dirs_configured L G cfg locked else ret True) sb
              = (Inr True, s)
        \<longrightarrow> run L Repo flags commit_id cfg s0 = (Inl e, s2))"
proof -
  let ?B = "\<lambda>r. seq (deploy L G r c cfg) (\<lambda>ok.
         if ok then
           seq (obj r) (\<lambda>d. print (''Deployed successfully to  '' @ path d))
         else ret ())"
  have b: "for_each ds1 ?B s = (Inr (), s1)"
    using before by (simp only: deploy_all_cfg_dirs)
  have one: "?B r s1 = (Inl e, s2)" using fail by (simp add: seq_def)
  have rest: "for_each (r # ds2) ?B s1 = (Inl e, s2)" using one by (simp add: seq_def)
  have all: "deploy_all L G c cfg s = (Inl e, s2)"
    unfolding deploy_all_def split for_each_append using b rest by (simp add: seq_def)
  from deploy_loop [OF b] have h1: "heap s1 = heap s"
    and d1: "deploys (trace s1) = deploys (trace s) @ map (\<lambda>x. path (heap s x)) ds1"
    by simp_all
  from deploy_deploys [OF fail] have "deploys (trace s2) = deploys (trace s1) @ [path (heap s1 r)]" .
  with h1 d1 have d2: "deploys (trace s2)
      = deploys (trace s) @ map (\<lambda>x. path (heap s x)) (ds1 @ [r])"
    by simp
  have "run L Repo flags commit_id cfg s0 = (Inl e, s2)"
    if "lock_dirs L cfg s0 = (Inr (Some locked), sa)" "locked \<noteq> []"
      "Repo (cfg_path cfg) = Inr G" "resolve_commit L G commit_id locked sa = (Inr c, sb)"
      "(if ''h'' \<notin> set flags then check_dirs_configured L G cfg locked else ret True) sb
              = (Inr True, s)"
    using that all by (simp add: run_def seq_def lift_def)
  with all d2 show ?thesis by blast
qed

theorem C7_deploy_phase_stops_at_first_failure_witness:
  "cfg_dirs row_cfg = [0] @ 1 # [2]
   \<and> fst (lock_dirs no_ftp row_cfg row_sites) = Inr (Some [0, 1, 2])
   \<and> run no_ftp (\<lambda>p. Inr tree_git) [''h''] None row_cfg row_sites
       = (Inl (Exn IOError []),
          snd (deploy no_ftp tree_git 1 (Commit ''8c1f0e2a'') row_cfg
            (snd (deploy_all no_ftp tree_git (Commit ''8c1f0e2a'') (row_cfg\<lparr>cfg_dirs := [0]\<rparr>)
               (snd (lock_dirs no_ftp row_cfg row_sites))))))
   \<and> deploys (trace (snd (run no_ftp (\<lambda>p. Inr tree_git) [''h''] None row_cfg row_sites)))
       = [''siteB'', ''siteA'']
   \<and> fs (snd (run no_ftp (\<lambda>p. Inr tree_git) [''h''] None row_cfg row_sites))
        ''siteB/b/c.txt'' = Some (File ''data'')
   \<and> fs (snd (run no_ftp (\<lambda>p. Inr tree_git) [''h''] None row_cfg row_sites))
        ''siteC/b/c.txt'' = None
   \<and> fs (snd (run no_ftp (\<lambda>p. Inr tree_git) [''h''] None row_cfg row_sites))
        ''siteC/.git_lock'' = Some (File ''locked'')"
proof -
  let ?c = "Commit ''8c1f0e2a''"
  let ?sa = "snd (lock_dirs no_ftp row_cfg row_sites)"
  let ?s1 = "snd (deploy_all no_ftp tree_git ?c (row_cfg\<lparr>cfg_dirs := [0]\<rparr>) ?sa)"
  let ?s2 = "snd (deploy no_ftp tree_git 1 ?c row_cfg ?s1)"
  let ?X = "run no_ftp (\<lambda>p. Inr tree_git) [''h''] None row_cfg row_sites"
  have split: "cfg_dirs row_cfg = [0] @ 1 # [2]" by (simp add: row_cfg_def)
  have l: "fst (lock_dirs no_ftp row_cfg row_sites) = Inr (Some [0, 1, 2])"
    by (simp add: row_sites_def row_cfg_def eval_defs)
  then have ld: "lock_dirs no_ftp row_cfg row_sites = (Inr (Some [0, 1, 2]), ?sa)"
    by (metis prod.collapse)
  have rc: "resolve_commit no_ftp tree_git None [0, 1, 2] ?sa = (Inr ?c, ?sa)"
    by (simp add: resolve_commit_def tree_git_def class_is_Commit_def seq_def lift_def ret_def)
  have v: "(if ''h'' \<notin> set [''h''] then check_dirs_configured no_ftp tree_git row_cfg [0, 1, 2]
            else ret True) ?sa = (Inr True, ?sa)"
    by (simp add: ret_def)
  have "fst (deploy_all no_ftp tree_git ?c (row_cfg\<lparr>cfg_dirs := [0]\<rparr>) ?sa) = Inr ()"
    by (simp add: row_sites_def row_cfg_def tree_git_def eval_defs)
  then have before: "deploy_all no_ftp tree_git ?c (row_cfg\<lparr>cfg_dirs := [0]\<rparr>) ?sa = (Inr (), ?s1)"
    by (metis prod.collapse)
  have "fst (deploy no_ftp tree_git 1 ?c row_cfg ?s1) = Inl (Exn IOError [])"
    by (simp add: row_sites_def row_cfg_def tree_git_def eval_defs)
  then have fail: "deploy no_ftp tree_git 1 ?c row_cfg ?s1 = (Inl (Exn IOError []), ?s2)"
    by (metis prod.collapse)
  have G: "(\<lambda>p. Inr tree_git) (cfg_path row_cfg) = (Inr tree_git :: exn + git)" by simp
  from C7_deploy_phase_stops_at_first_failure [OF split before fail,
      of row_sites "[0, 1, 2]" ?sa "\<lambda>p. Inr tree_git" None ?sa "[''h'']"] ld G rc v
  have X: "?X = (Inl (Exn IOError []), ?s2)" by simp
  have d: "deploys (trace (snd ?X)) = [''siteB'', ''siteA'']"
    by (simp add: row_sites_def row_cfg_def tree_git_def eval_defs)
  have f1: "fs (snd ?X) ''siteB/b/c.txt'' = Some (File ''data'')"
    by (simp add: row_sites_def row_cfg_def tree_git_def eval_defs)
  have f2: "fs (snd ?X) ''siteC/b/c.txt'' = None"
    by (simp add: row_sites_def row_cfg_def tree_git_def eval_defs)
  have f3: "fs (snd ?X) ''siteC/.git_lock'' = Some (File ''locked'')"
    by (simp add: row_sites_def row_cfg_def tree_git_def eval_defs)
  from split l X d f1 f2 f3 show ?thesis by simp
qed

text \<open>
  C1. The claim: whenever a target holds a lock marker at the start of the lock phase,
  the run deploys nothing and no target keeps a lock marker that this run wrote.
  \<open>lock_dirs\<close> calls \<open>check_locked\<close> (line 62) outside the \<^verbatim>\<open>try\<close> that guards \<open>connect\<close>
  (lines 54-59), and nothing else catches. With three targets, \<^verbatim>\<open>siteA\<close> free, \<^verbatim>\<open>siteB\<close>
  already locked and an FTP target whose server refuses the listing, the exception of the
  listing ends the run before \<open>abort\<close> is called: the marker that this run wrote in
  \<^verbatim>\<open>siteA\<close> stays.
\<close>

theorem C1_lock_left_behind_when_lock_check_raises:
  "fs three_sites ''siteB/.git_lock'' = Some (File ''locked'')
   \<and> fs three_sites ''siteA/.git_lock'' = None
   \<and> fst (run no_mlsd_ftp (\<lambda>p. Inr tree_git) [] None three_cfg three_sites)
       = Inl (Exn Exception ''500'')
   \<and> fs (snd (run no_mlsd_ftp (\<lambda>p. Inr tree_git) [] None three_cfg three_sites))
        ''siteA/.git_lock'' = Some (File ''locked'')"
  by (simp add: three_sites_def three_cfg_def no_mlsd_ftp_def upper_char_def eval_defs)

text \<open>
  C3. The claim: an invalid revision identifier is found before anything is locked. The
  run locks first: given the identifier \<^verbatim>\<open>z\<close>, which names no object of the repository,
  the lock marker of the target has been written when the identifier is resolved, and it
  is still there when the run has ended with the exception of \<^verbatim>\<open>repo.commit\<close>.
\<close>

theorem C3_lock_written_before_resolution:
  "take 3 (trace (snd (run no_ftp (\<lambda>p. Inr tree_git) [] (Some ''z'') site_cfg site_state)))
     = [Print ''None'', Wrote ''site/.git_lock'' ''locked'', Resolve ''z'']
   \<and> fst (run no_ftp (\<lambda>p. Inr tree_git) [] (Some ''z'') site_cfg site_state)
     = Inl (Exn Exception ''BadName'')
   \<and> fs (snd (run no_ftp (\<lambda>p. Inr tree_git) [] (Some ''z'') site_cfg site_state))
        ''site/.git_lock'' = Some (File ''locked'')"
  by (simp add: site_state_def site_cfg_def tree_git_def eval_defs)

text \<open>
  C3, as amended. The desired revision is resolved after the lock phase. When the lock
  phase has locked the targets and \<^verbatim>\<open>repo.commit\<close> raises for the identifier given on the
  command line, the run fails with that exception, and what has happened by then is the
  lock phase followed by the resolution: the state at the end is the one that the lock
  phase left, with the resolution as the last event of the log. Without FTP targets the
  lock phase has locked all the targets of the configuration: it has written the lock
  marker of each, which did not exist before, and has touched no other file.
\<close>

theorem C3_resolution_follows_locking:
  assumes ld: "lock_dirs L cfg s = (Inr (Some locked), s1)" and ne: "locked \<noteq> []"
    and G: "Repo (cfg_path cfg) = Inr G" and bad: "repo_commit G i = Inl e"
  shows "run L Repo flags (Some i) cfg s = (Inl e, s1\<lparr>trace := trace s1 @ [Resolve i]\<rparr>)
    \<and> ((\<forall>r \<in> set (cfg_dirs cfg). connection_mode (heap s r) \<noteq> Some ''FTP'')
         \<longrightarrow> locked = cfg_dirs cfg
           \<and> (\<forall>r \<in> set (cfg_dirs cfg).
                 fs s (path_join (path (heap s r)) LOCK_FILE) = None
               \<and> fs s1 (path_join (path (heap s r)) LOCK_FILE) = Some (File ''locked''))
           \<and> (\<forall>p. (\<forall>r \<in> set (cfg_dirs cfg). p \<noteq> path_join (path (heap s r)) LOCK_FILE)
                 \<longrightarrow> fs s1 p = fs s p))"
proof
  show "run L Repo flags (Some i) cfg s = (Inl e, s1\<lparr>trace := trace s1 @ [Resolve i]\<rparr>)"
    using ld ne G bad
    by (simp add: run_def resolve_commit_def seq_def lift_def emit_def)
  show "(\<forall>r \<in> set (cfg_dirs cfg). connection_mode (heap s r) \<noteq> Some ''FTP'')
         \<longrightarrow> locked = cfg_dirs cfg
           \<and> (\<forall>r \<in> set (cfg_dirs cfg).
                 fs s (path_join (path (heap s r)) LOCK_FILE) = None
               \<and> fs s1 (path_join (path (heap s r)) LOCK_FILE) = Some (File ''locked''))
           \<and> (\<forall>p. (\<forall>r \<in> set (cfg_dirs cfg). p \<noteq> path_join (path (heap s r)) LOCK_FILE)
                 \<longrightarrow> fs s1 p = fs s p)"
  proof
    assume nf: "\<forall>r \<in> set (cfg_dirs cfg). connection_mode (heap s r) \<noteq> Some ''FTP''"
    from lock_dirs_not_ftp [OF nf, of L] ld have lc: "locked = cfg_dirs cfg"
      and n: "\<forall>r \<in> set locked. connection_mode (heap s r) = None \<and> fs s (lock_path s r) = None"
      and f: "fs s1 = (\<lambda>p. if p \<in> lock_path s ` set locked then Some (File ''locked'')
                              else fs s p)"
      by auto
    have markers: "\<forall>r \<in> set (cfg_dirs cfg).
                 fs s (path_join (path (heap s r)) LOCK_FILE) = None
               \<and> fs s1 (path_join (path (heap s r)) LOCK_FILE) = Some (File ''locked'')"
      using lc n by (simp add: f)
    have frame: "\<forall>p. (\<forall>r \<in> set (cfg_dirs cfg). p \<noteq> path_join (path (heap s r)) LOCK_FILE)
                 \<longrightarrow> fs s1 p = fs s p"
      unfolding f lc by auto
    from lc markers frame show "locked = cfg_dirs cfg
           \<and> (\<forall>r \<in> set (cfg_dirs cfg).
                 fs s (path_join (path (heap s r)) LOCK_FILE) = None
               \<and> fs s1 (path_join (path (heap s r)) LOCK_FILE) = Some (File ''locked''))
           \<and> (\<forall>p. (\<forall>r \<in> set (cfg_dirs cfg). p \<noteq> path_join (path (heap s r)) LOCK_FILE)
                 \<longrightarrow> fs s1 p = fs s p)"
      by (intro conjI)
  qed
qed

theorem C3_resolution_follows_locking_witness:
  "fst (lock_dirs no_ftp site_cfg site_state) = Inr (Some [0])
   \<and> repo_commit tree_git ''z'' = Inl (Exn Exception ''BadName'')
   \<and> run no_ftp (\<lambda>p. Inr tree_git) [] (Some ''z'') site_cfg site_state
       = (Inl (Exn Exception ''BadName''),
          (snd (lock_dirs no_ftp site_cfg site_state))
            \<lparr>trace := trace (snd (lock_dirs no_ftp site_cfg site_state)) @ [Resolve ''z'']\<rparr>)
   \<and> fs site_state ''site/.git_lock'' = None
   \<and> fs (snd (lock_dirs no_ftp site_cfg site_state)) ''site/.git_lock'' = Some (File ''locked'')
   \<and> fs (snd (lock_dirs no_ftp site_cfg site_state)) ''site'' = Some Dir"
proof -
  let ?s1 = "snd (lock_dirs no_ftp site_cfg site_state)"
  have b: "fst (lock_dirs no_ftp site_cfg site_state) = Inr (Some [0])"
    by (simp add: site_state_def site_cfg_def eval_defs)
  then have ld: "lock_dirs no_ftp site_cfg site_state = (Inr (Some [0]), ?s1)"
    by (metis prod.collapse)
  have bad: "repo_commit tree_git ''z'' = Inl (Exn Exception ''BadName'')"
    by (simp add: tree_git_def)
  have G: "(\<lambda>p. Inr tree_git) (cfg_path site_cfg) = (Inr tree_git :: exn + git)" by simp
  have nf: "\<forall>r \<in> set (cfg_dirs site_cfg). connection_mode (heap site_state r) \<noteq> Some ''FTP''"
    by (simp add: site_state_def Directory_init_def)
  from C3_resolution_follows_locking [OF ld _ G bad, of "[]"] nf
  have "run no_ftp (\<lambda>p. Inr tree_git) [] (Some ''z'') site_cfg site_state
       = (Inl (Exn Exception ''BadName''), ?s1\<lparr>trace := trace ?s1 @ [Resolve ''z'']\<rparr>)"
    and "fs site_state (path_join (path (heap site_state 0)) LOCK_FILE) = None"
    and "fs ?s1 (path_join (path (heap site_state 0)) LOCK_FILE) = Some (File ''locked'')"
    and "''site'' \<noteq> path_join (path (heap site_state 0)) LOCK_FILE
          \<longrightarrow> fs ?s1 ''site'' = fs site_state ''site''"
    by (simp_all add: site_cfg_def)
  then show ?thesis using b bad
    by (simp add: site_state_def Directory_init_def path_join_def slash_def LOCK_FILE_def)
qed




text \<open>
  C9. The claim: without the flag \<^verbatim>\<open>h\<close>, a locked target that lacks a valid commit marker
  makes the run abort, removing every lock it acquired, before any deploy. The comment of
  line 16 counts a marker whose contents are gibberish among the invalid ones, but
  \<open>check_valid_commit\<close> passes the contents to \<^verbatim>\<open>repo.commit\<close> (line 207), which raises for
  an identifier that names no object, and nothing catches: the run ends with that
  exception; no deploy is called, and the lock marker that this run wrote stays.
\<close>

theorem C9_garbled_marker_ends_run_with_lock_held:
  "fs garbled_site ''site/.git_lock'' = None
   \<and> fst (run no_ftp (\<lambda>p. Inr tree_git) [] None site_cfg garbled_site)
       = Inl (Exn Exception ''BadName'')
   \<and> fs (snd (run no_ftp (\<lambda>p. Inr tree_git) [] None site_cfg garbled_site))
        ''site/.git_lock'' = Some (File ''locked'')
   \<and> deploys (trace (snd (run no_ftp (\<lambda>p. Inr tree_git) [] None site_cfg garbled_site))) = []"
  by (simp add: garbled_site_def site_cfg_def tree_git_def eval_defs)

end
